theory Spec2Isabelle
  imports Main "HOL-Library.AList"
begin

section \<open>Python values\<close>

text \<open>
  A Python \<open>str\<close> is a sequence of Unicode code points. The timestamps of the export
  contain U+202F, which is no 8-bit character, so a string is a list of code points here
  and \<open>ascii\<close> embeds a literal.
\<close>

type_synonym pystr = "nat list"

definition ascii :: "string \<Rightarrow> pystr" where
  "ascii s = map of_char s"

text \<open>
  The exceptions the script can raise; none of them is caught anywhere.
  \<open>IllegalCharacterError\<close> is \<open>openpyxl\<close>'s, for cell text with a control character.
\<close>

datatype error =
  AttributeError | KeyError | TypeError | IndexError | ValueError | OSError | IllegalCharacterError

record datetime =
  year :: nat
  month :: nat
  day :: nat
  hour :: nat
  minute :: nat
  second :: nat

text \<open>
  What \<open>json.load\<close> returns (\<open>None\<close>, \<open>bool\<close>, \<open>int\<close>, \<open>str\<close>, \<open>list\<close>, \<open>dict\<close>
  with string keys), and the \<open>datetime\<close> that \<open>parseGoogleDate\<close> adds. A dict is the
  list of its items, looked up with \<open>map_of\<close>. JSON numbers with a fraction or an exponent
  (Python floats) are left out: the script never computes with a number.
\<close>

datatype pyval =
    PNone
  | PBool bool
  | PInt int
  | PStr pystr
  | PList "pyval list"
  | PDict "(pystr \<times> pyval) list"
  | PDatetime datetime

fun truthy :: "pyval \<Rightarrow> bool" where
  "truthy PNone = False"
| "truthy (PBool b) = b"
| "truthy (PInt i) = (i \<noteq> 0)"
| "truthy (PStr s) = (s \<noteq> [])"
| "truthy (PList xs) = (xs \<noteq> [])"
| "truthy (PDict d) = (d \<noteq> [])"
| "truthy (PDatetime t) = True"

text \<open>\<open>x.get(k, dflt)\<close>: only a dict has the method.\<close>

fun py_get :: "pyval \<Rightarrow> pystr \<Rightarrow> pyval \<Rightarrow> error + pyval" where
  "py_get (PDict d) k dflt = Inr (case map_of d k of Some v \<Rightarrow> v | None \<Rightarrow> dflt)"
| "py_get _ k dflt = Inl AttributeError"

text \<open>\<open>x[k]\<close> for a string key \<open>k\<close>.\<close>

fun py_item :: "pyval \<Rightarrow> pystr \<Rightarrow> error + pyval" where
  "py_item (PDict d) k = (case map_of d k of Some v \<Rightarrow> Inr v | None \<Rightarrow> Inl KeyError)"
| "py_item _ k = Inl TypeError"

text \<open>\<open>x[0]\<close>. The keys of a loaded dict are strings, so \<open>0\<close> is never one of them.\<close>

fun py_first :: "pyval \<Rightarrow> error + pyval" where
  "py_first (PList []) = Inl IndexError"
| "py_first (PList (x # xs)) = Inr x"
| "py_first (PStr []) = Inl IndexError"
| "py_first (PStr (c # cs)) = Inr (PStr [c])"
| "py_first (PDict d) = Inl KeyError"
| "py_first _ = Inl TypeError"

text \<open>\<open>for x in v\<close>: a dict yields its keys, a string its characters.\<close>

fun py_iter :: "pyval \<Rightarrow> error + pyval list" where
  "py_iter (PList xs) = Inr xs"
| "py_iter (PDict d) = Inr (map (\<lambda>kv. PStr (fst kv)) d)"
| "py_iter (PStr s) = Inr (map (\<lambda>c. PStr [c]) s)"
| "py_iter _ = Inl TypeError"

section \<open>Strings\<close>

text \<open>\<open>str.isspace\<close> of one code point, the set \<open>strip()\<close> and the regex class \<open>\s\<close> use.\<close>

definition isspace :: "nat \<Rightarrow> bool" where
  "isspace c = ((9 \<le> c \<and> c \<le> 13) \<or> (28 \<le> c \<and> c \<le> 32) \<or> c = 133 \<or> c = 160 \<or> c = 5760
     \<or> (8192 \<le> c \<and> c \<le> 8202) \<or> c = 8232 \<or> c = 8233 \<or> c = 8239 \<or> c = 8287 \<or> c = 12288)"

definition strip :: "pystr \<Rightarrow> pystr" where
  "strip s = rev (dropWhile isspace (rev (dropWhile isspace s)))"

text \<open>\<open>s.replace(old, new)\<close> for one-character \<open>old\<close> and \<open>new\<close>, the only use the script makes.\<close>

definition replace :: "pystr \<Rightarrow> nat \<Rightarrow> nat \<Rightarrow> pystr" where
  "replace s old new = map (\<lambda>c. if c = old then new else c) s"

text \<open>Lower case of the ASCII letters; other code points stay.\<close>

definition lower_ascii :: "pystr \<Rightarrow> pystr" where
  "lower_ascii s = map (\<lambda>c. if 65 \<le> c \<and> c \<le> 90 then c + 32 else c) s"

text \<open>\<open>sep.join(xs)\<close> on strings.\<close>

fun join :: "pystr \<Rightarrow> pystr list \<Rightarrow> pystr" where
  "join sep [] = []"
| "join sep [x] = x"
| "join sep (x # y # ys) = x @ sep @ join sep (y # ys)"

text \<open>\<open>s.split(sep)\<close> for a one-character separator: always at least one piece.\<close>

fun split :: "nat \<Rightarrow> pystr \<Rightarrow> pystr list" where
  "split sep [] = [[]]"
| "split sep (c # cs) =
     (if c = sep then [] # split sep cs
      else (case split sep cs of [] \<Rightarrow> [[c]] | x # xs \<Rightarrow> (c # x) # xs))"

text \<open>\<open>str(n)\<close> for an integer.\<close>

function digits :: "nat \<Rightarrow> pystr" where
  "digits n = (if n < 10 then [48 + n] else digits (n div 10) @ [48 + n mod 10])"
  by pat_completeness auto
termination
  by (relation "measure id") auto

definition str_int :: "int \<Rightarrow> pystr" where
  "str_int i = (if i < 0 then 45 # digits (nat (- i)) else digits (nat i))"

section \<open>\<open>datetime.strptime\<close> for the format of the export\<close>

text \<open>
  \<open>parseGoogleDate\<close> hands its cleaned string to the standard library's
  \<open>datetime.strptime\<close> with the format \<open>%A, %B %d, %Y at %I:%M:%S %p %Z\<close>. The library
  compiles the format into a regular expression, matches it at the start of the string with a
  backtracking matcher that ignores case, refuses a match that does not end the string, and
  builds the \<open>datetime\<close> from the named groups. The model below follows that route for this one
  format: a small regular-expression type, a matcher that returns every match in the
  matcher's order of preference (the library takes the first), and the conversion of the
  groups.

  Scope of the model: English names (the C locale) and a host whose local zone is UTC (so
  \<open>%Z\<close> accepts \<open>utc\<close> and \<open>gmt\<close>). A letter outside ASCII never matches a name here; in
  Python three such letters match a name ignoring case and the following lookup of the
  lowered name raises the same \<open>ValueError\<close>.

  The class \<open>\d\<close> of a pattern on \<open>str\<close> is every decimal digit of Unicode (category
  \<open>Nd\<close>), and \<open>int\<close> reads every one of them. In Unicode 15, the version of Python 3.12,
  they are 68 runs of ten code points, each run the digits 0 to 9 of one script in order;
  \<open>digit_zeros\<close> lists the code point of the zero of every run.
\<close>

definition digit_zeros :: "nat list" where
  "digit_zeros =
     [48, 1632, 1776, 1984, 2406, 2534, 2662, 2790, 2918, 3046, 3174, 3302, 3430, 3558, 3664,
      3792, 3872, 4160, 4240, 6112, 6160, 6470, 6608, 6784, 6800, 6992, 7088, 7232, 7248, 42528,
      43216, 43264, 43472, 43504, 43600, 44016, 65296, 66720, 68912, 69734, 69872, 69942, 70096,
      70384, 70736, 70864, 71248, 71360, 71472, 71904, 72016, 72784, 73040, 73120, 73552, 92768,
      92864, 93008, 120782, 120792, 120802, 120812, 120822, 123200, 123632, 124144, 125264,
      130032]"

fun zero_of :: "nat list \<Rightarrow> nat \<Rightarrow> nat option" where
  "zero_of [] c = None"
| "zero_of (z # zs) c = (if z \<le> c \<and> c < z + 10 then Some z else zero_of zs c)"

text \<open>The value of a decimal digit, \<open>None\<close> for every other code point.\<close>

definition digit_value :: "nat \<Rightarrow> nat option" where
  "digit_value c = map_option (\<lambda>z. c - z) (zero_of digit_zeros c)"

datatype regex =
    Range char char
  | Digit
  | Spaces
  | Lit string
  | Seq regex regex
  | Alt regex regex
  | Group regex

definition rx_bind :: "'a list \<Rightarrow> ('a \<Rightarrow> 'b list) \<Rightarrow> 'b list" where
  "rx_bind xs f = concat (map f xs)"

text \<open>
  A match is the matched text, the texts of the groups inside it, and the rest of the
  string. \<open>Range lo hi\<close> is the class \<open>[lo-hi]\<close>, \<open>Digit\<close> the class \<open>\d\<close>, \<open>Spaces\<close> is the
  greedy \<open>\s+\<close> (longest run first), \<open>Lit w\<close> a literal in lower case matched ignoring case,
  \<open>Alt\<close> prefers its left side.
\<close>

fun rx_match :: "regex \<Rightarrow> pystr \<Rightarrow> (pystr \<times> pystr list \<times> pystr) list" where
  "rx_match (Range lo hi) s =
     (case s of [] \<Rightarrow> []
      | c # r \<Rightarrow> if of_char lo \<le> c \<and> c \<le> of_char hi then [([c], [], r)] else [])"
| "rx_match Digit s =
     (case s of [] \<Rightarrow> []
      | c # r \<Rightarrow> if digit_value c \<noteq> None then [([c], [], r)] else [])"
| "rx_match Spaces s =
     map (\<lambda>k. (take k s, [], drop k s)) (rev [1..<Suc (length (takeWhile isspace s))])"
| "rx_match (Lit w) s =
     (if length w \<le> length s \<and> lower_ascii (take (length w) s) = ascii w
      then [(take (length w) s, [], drop (length w) s)] else [])"
| "rx_match (Seq a b) s =
     rx_bind (rx_match a s)
       (\<lambda>(t, g, r). map (\<lambda>(t', g', r'). (t @ t', g @ g', r')) (rx_match b r))"
| "rx_match (Alt a b) s = rx_match a s @ rx_match b s"
| "rx_match (Group a) s = map (\<lambda>(t, g, r). (t, t # g, r)) (rx_match a s)"

fun seqs :: "regex list \<Rightarrow> regex" where
  "seqs [] = Lit []"
| "seqs [r] = r"
| "seqs (r # rs) = Seq r (seqs rs)"

fun alts :: "regex list \<Rightarrow> regex" where
  "alts [] = Range CHR ''b'' CHR ''a''"
| "alts [r] = r"
| "alts (r # rs) = Alt r (alts rs)"

definition ch :: "char \<Rightarrow> regex" where
  "ch c = Range c c"

text \<open>The library's table of directives, each alternation in the library's order.\<close>

definition directive_d :: regex where
  "directive_d = Group (alts
     [Seq (ch CHR ''3'') (Range CHR ''0'' CHR ''1''),
      Seq (Range CHR ''1'' CHR ''2'') Digit,
      Seq (ch CHR ''0'') (Range CHR ''1'' CHR ''9''),
      Range CHR ''1'' CHR ''9'',
      Seq (ch CHR '' '') (Range CHR ''1'' CHR ''9'')])"

definition directive_I :: regex where
  "directive_I = Group (alts
     [Seq (ch CHR ''1'') (Range CHR ''0'' CHR ''2''),
      Seq (ch CHR ''0'') (Range CHR ''1'' CHR ''9''),
      Range CHR ''1'' CHR ''9''])"

definition directive_M :: regex where
  "directive_M = Group (alts [Seq (Range CHR ''0'' CHR ''5'') Digit, Digit])"

definition directive_S :: regex where
  "directive_S = Group (alts
     [Seq (ch CHR ''6'') (Range CHR ''0'' CHR ''1''),
      Seq (Range CHR ''0'' CHR ''5'') Digit,
      Digit])"

definition directive_Y :: regex where
  "directive_Y = Group (seqs [Digit, Digit, Digit, Digit])"

definition f_weekday :: "string list" where
  "f_weekday =
     [''monday'', ''tuesday'', ''wednesday'', ''thursday'', ''friday'', ''saturday'', ''sunday'']"

definition f_month :: "string list" where
  "f_month =
     ['''', ''january'', ''february'', ''march'', ''april'', ''may'', ''june'', ''july'',
      ''august'', ''september'', ''october'', ''november'', ''december'']"

text \<open>Names are tried longest first.\<close>

definition directive_A :: regex where
  "directive_A = Group (alts (map Lit
     [''wednesday'', ''thursday'', ''saturday'', ''tuesday'', ''monday'', ''friday'', ''sunday'']))"

definition directive_B :: regex where
  "directive_B = Group (alts (map Lit
     [''september'', ''february'', ''november'', ''december'', ''january'', ''october'',
      ''august'', ''march'', ''april'', ''june'', ''july'', ''may'']))"

definition directive_p :: regex where
  "directive_p = Group (alts (map Lit [''am'', ''pm'']))"

definition directive_Z :: regex where
  "directive_Z = Group (alts (map Lit [''utc'', ''gmt'']))"

text \<open>\<open>rawFormat\<close> as the library compiles it: every run of blanks of the format is \<open>\s+\<close>.\<close>

definition rawFormat :: regex where
  "rawFormat = seqs
     [directive_A, Lit '','', Spaces, directive_B, Spaces, directive_d, Lit '','', Spaces,
      directive_Y, Spaces, Lit ''at'', Spaces, directive_I, Lit '':'', directive_M, Lit '':'',
      directive_S, Spaces, directive_p, Spaces, directive_Z]"

text \<open>
  \<open>int(s)\<close> on a group: blanks around the digits are dropped. A group of the pattern holds
  decimal digits and at most a blank in front, so \<open>int\<close> never raises here.
\<close>

definition py_int :: "pystr \<Rightarrow> nat" where
  "py_int s =
     fold (\<lambda>c n. 10 * n + (case digit_value c of Some v \<Rightarrow> v | None \<Rightarrow> 0)) (strip s) 0"

text \<open>\<open>xs.index(x)\<close>, \<open>None\<close> where Python raises \<open>ValueError\<close>.\<close>

fun index :: "'a list \<Rightarrow> 'a \<Rightarrow> nat option" where
  "index [] x = None"
| "index (y # ys) x = (if y = x then Some 0 else map_option Suc (index ys x))"

definition days_in_month :: "nat \<Rightarrow> nat \<Rightarrow> nat" where
  "days_in_month y m =
     (if m = 2 then (if (if y mod 100 = 0 then y mod 400 = 0 else y mod 4 = 0) then 29 else 28)
      else if m = 4 \<or> m = 6 \<or> m = 9 \<or> m = 11 then 30 else 31)"

text \<open>
  From the groups to the \<open>datetime\<close>: the month by its name, 12 AM is hour 0 and PM adds 12
  but to 12, and the constructor refuses year 0, a day the month does not have, and the
  seconds 60 and 61 that the pattern lets through. The weekday is looked up and not compared
  with the date.
\<close>

definition make_datetime :: "pystr list \<Rightarrow> error + datetime" where
  "make_datetime found =
     (case found of
        [A, B, d, Y, I, M, S, p, Z] \<Rightarrow>
          (case index (map ascii f_month) (lower_ascii B) of
             None \<Rightarrow> Inl ValueError
           | Some mo \<Rightarrow>
              (case index (map ascii f_weekday) (lower_ascii A) of
                 None \<Rightarrow> Inl ValueError
               | Some wd \<Rightarrow>
                  if 1 \<le> py_int Y \<and> 1 \<le> py_int d \<and> py_int d \<le> days_in_month (py_int Y) mo
                       \<and> py_int S \<le> 59
                  then Inr \<lparr>year = py_int Y, month = mo, day = py_int d,
                     hour = (if lower_ascii p = ascii ''am''
                             then (if py_int I = 12 then 0 else py_int I)
                             else (if py_int I \<noteq> 12 then py_int I + 12 else py_int I)),
                     minute = py_int M, second = py_int S\<rparr>
                  else Inl ValueError))
      | _ \<Rightarrow> Inl ValueError)"

definition strptime :: "pystr \<Rightarrow> error + datetime" where
  "strptime data_string =
     (case rx_match rawFormat data_string of
        [] \<Rightarrow> Inl ValueError
      | (t, found, rest) # _ \<Rightarrow> if rest \<noteq> [] then Inl ValueError else make_datetime found)"

section \<open>\<open>parseGoogleDate\<close>\<close>

text \<open>
  \<open>not raw\<close> is Python's truth test, so \<open>None\<close> and every empty value give \<open>''\<close>. Of the other
  values only a string has the \<open>replace\<close> the next line calls with two strings. U+202F is code
  point 8239.
\<close>

definition parseGoogleDate :: "pyval \<Rightarrow> error + pyval" where
  "parseGoogleDate raw =
     (if \<not> truthy raw then Inr (PStr [])
      else (case raw of
          PStr s \<Rightarrow>
            (case strptime (strip (replace s 8239 32)) of
               Inl e \<Rightarrow> Inl e
             | Inr formatted \<Rightarrow> Inr (PDatetime formatted))
        | PDatetime t \<Rightarrow> Inl TypeError
        | _ \<Rightarrow> Inl AttributeError))"

section \<open>Paths and the file system\<close>

text \<open>
  The script runs on resolved, absolute paths. A path is the list of its components below
  the root \<open>/\<close> (POSIX). \<open>parent\<close> and \<open>name\<close> are \<open>pathlib\<close>'s; the root is its own parent
  and has the empty name.
\<close>

type_synonym path = "pystr list"

definition parent :: "path \<Rightarrow> path" where
  "parent p = butlast p"

definition name :: "path \<Rightarrow> pystr" where
  "name p = (if p = [] then [] else last p)"

definition path_str :: "path \<Rightarrow> pystr" where
  "path_str p = (if p = [] then [47] else concat (map (\<lambda>c. 47 # c) p))"

text \<open>
  \<open>p / seg\<close> for a string \<open>seg\<close>: the components of \<open>seg\<close> between slashes, less the empty
  ones and \<open>.\<close>, are added to \<open>p\<close>; a \<open>seg\<close> that starts with a slash replaces \<open>p\<close>. A
  component \<open>..\<close> is kept as it is.
\<close>

definition joinpath :: "path \<Rightarrow> pystr \<Rightarrow> path" where
  "joinpath p seg =
     (if seg \<noteq> [] \<and> hd seg = 47
      then filter (\<lambda>x. x \<noteq> [] \<and> x \<noteq> ascii ''.'') (split 47 seg)
      else p @ filter (\<lambda>x. x \<noteq> [] \<and> x \<noteq> ascii ''.'') (split 47 seg))"

text \<open>\<open>os.path.normpath\<close> on an absolute path: \<open>..\<close> removes the component before it.\<close>

definition normpath :: "path \<Rightarrow> path" where
  "normpath p =
     fold (\<lambda>c acc. if c = [] \<or> c = ascii ''.'' then acc
                    else if c = ascii ''..'' then butlast acc
                    else acc @ [c]) p []"

fun commonprefix :: "'a list \<Rightarrow> 'a list \<Rightarrow> 'a list" where
  "commonprefix (x # xs) (y # ys) = (if x = y then x # commonprefix xs ys else [])"
| "commonprefix _ _ = []"

text \<open>\<open>os.path.relpath(path, start)\<close> on two absolute paths.\<close>

definition relpath :: "path \<Rightarrow> path \<Rightarrow> pystr" where
  "relpath p start =
     (let start_list = normpath start;
          path_list = normpath p;
          i = length (commonprefix start_list path_list);
          rel_list = replicate (length start_list - i) (ascii ''..'') @ drop i path_list
      in if rel_list = [] then ascii ''.'' else join [47] rel_list)"

text \<open>
  The file system is a tree. A file carries what \<open>open\<close> and \<open>json.load\<close> make of it: the
  loaded value, or the exception (\<open>OSError\<close> for a file that cannot be read, \<open>ValueError\<close>
  for text that is no JSON). \<open>Other\<close> is whatever is neither a file nor a directory to
  \<open>is_file\<close> and \<open>rglob\<close> (a socket, a dangling link, a link to a directory).
\<close>

datatype fsnode = File "error + pyval" | Dir "(pystr \<times> fsnode) list" | Other

fun lookup :: "fsnode \<Rightarrow> path \<Rightarrow> fsnode option" where
  "lookup n [] = Some n"
| "lookup (Dir es) (c # cs) = (case map_of es c of None \<Rightarrow> None | Some n \<Rightarrow> lookup n cs)"
| "lookup _ (c # cs) = None"

definition is_file :: "fsnode \<Rightarrow> path \<Rightarrow> bool" where
  "is_file fs p = (case lookup fs p of Some (File c) \<Rightarrow> True | _ \<Rightarrow> False)"

definition is_dir :: "fsnode \<Rightarrow> path \<Rightarrow> bool" where
  "is_dir fs p = (case lookup fs p of Some (Dir es) \<Rightarrow> True | _ \<Rightarrow> False)"

definition load :: "fsnode \<Rightarrow> path \<Rightarrow> error + pyval" where
  "load fs p = (case lookup fs p of Some (File c) \<Rightarrow> c | _ \<Rightarrow> Inl OSError)"

text \<open>
  \<open>p.rglob('*')\<close> on the directory \<open>n\<close> at \<open>p\<close>: the entries of the directory, then the same
  for each of its subdirectories in turn. Nothing for what is no directory.
\<close>

fun rglob :: "path \<Rightarrow> fsnode \<Rightarrow> path list"
  and rglob_entries :: "path \<Rightarrow> (pystr \<times> fsnode) list \<Rightarrow> path list" where
  "rglob p (Dir es) = map (\<lambda>e. p @ [fst e]) es @ rglob_entries p es"
| "rglob p (File c) = []"
| "rglob p Other = []"
| "rglob_entries p [] = []"
| "rglob_entries p (e # es) = rglob (p @ [fst e]) (snd e) @ rglob_entries p es"

section \<open>\<open>findMessagesJson\<close>\<close>

text \<open>
  \<open>str.lower\<close> is \<open>lower_ascii\<close> here. Python's \<open>lower\<close> changes code points outside ASCII
  too, but maps only U+0130 and U+212A to text with an ASCII letter (\<open>i\<close> and \<open>k\<close>), and
  \<open>messages.json\<close> has neither: the comparison below has the same result with both.
\<close>

definition findMessagesJson :: "fsnode \<Rightarrow> path \<Rightarrow> path list" where
  "findMessagesJson fs rootDir =
     (case lookup fs rootDir of
        None \<Rightarrow> []
      | Some n \<Rightarrow>
          filter (\<lambda>p. is_file fs p \<and> lower_ascii (name p) = ascii ''messages.json'')
            (rglob rootDir n))"

section \<open>The worksheet\<close>

text \<open>
  \<open>openpyxl\<close>'s worksheet, as far as the script uses it: the cells by (row, column), both
  counted from 1, the row of the last \<open>append\<close>, column widths, the filter range and the
  frozen pane. Columns are numbered, so \<open>A\<close> is 1, \<open>D\<close> is 4 and \<open>get_column_letter\<close> is
  left out. A cell has its value, its hyperlink, the name of its style, and the font, fill
  and alignment set on it directly (\<open>None\<close>: those of its style).
\<close>

record font =
  bold :: bool
  color :: "string option"

record fill =
  fill_type :: "string option"
  fgColor :: "string option"

record alignment =
  horizontal :: "string option"
  vertical :: "string option"
  wrapText :: "bool option"

datatype cellval = VNone | VBool bool | VInt int | VStr pystr | VDatetime datetime

record cell =
  cvalue :: cellval
  hyperlink :: "pystr option"
  style :: string
  font :: "font option"
  fill :: "fill option"
  alignment :: "alignment option"

record worksheet =
  title :: string
  cells :: "((nat \<times> nat) \<times> cell) list"
  current_row :: nat
  column_width :: "(nat \<times> nat) list"
  auto_filter_ref :: "((nat \<times> nat) \<times> (nat \<times> nat)) option"
  freeze_panes :: "(nat \<times> nat) option"

definition new_cell :: "cellval \<Rightarrow> cell" where
  "new_cell v = \<lparr>cvalue = v, hyperlink = None, style = ''Normal'', font = None, fill = None,
     alignment = None\<rparr>"

text \<open>
  The library's \<open>check_string\<close>, which every text passes on its way into a cell: the text is
  cut to its first 32767 characters, and what is left is refused when it holds a control
  character other than tab, line feed and carriage return (the pattern
  \<open>[\000-\010]|[\013-\014]|[\016-\037]\<close>, in octal).
\<close>

definition illegal_character :: "nat \<Rightarrow> bool" where
  "illegal_character c = (c \<le> 8 \<or> c = 11 \<or> c = 12 \<or> (14 \<le> c \<and> c \<le> 31))"

definition check_string :: "pystr \<Rightarrow> error + pystr" where
  "check_string s =
     (let v = take 32767 s
      in if list_ex illegal_character v then Inl IllegalCharacterError else Inr v)"

text \<open>
  The value a cell takes from a Python value (the library's \<open>_bind_value\<close>): \<open>ValueError\<close>
  for a list or a dict, a text as \<open>check_string\<close> returns it. A text that starts with \<open>=\<close>
  is stored as it is (the library marks it as a formula, which is not modelled).
\<close>

fun bind_value :: "pyval \<Rightarrow> error + cellval" where
  "bind_value PNone = Inr VNone"
| "bind_value (PBool b) = Inr (VBool b)"
| "bind_value (PInt i) = Inr (VInt i)"
| "bind_value (PStr s) = (case check_string s of Inl e \<Rightarrow> Inl e | Inr v \<Rightarrow> Inr (VStr v))"
| "bind_value (PDatetime t) = Inr (VDatetime t)"
| "bind_value (PList xs) = Inl ValueError"
| "bind_value (PDict d) = Inl ValueError"

text \<open>\<open>max_row\<close> and \<open>max_column\<close>: the largest index among the cells, 1 for no cells.\<close>

definition max_row :: "worksheet \<Rightarrow> nat" where
  "max_row ws = (case map (\<lambda>kv. fst (fst kv)) (cells ws) of [] \<Rightarrow> 1 | r # rs \<Rightarrow> fold max rs r)"

definition max_column :: "worksheet \<Rightarrow> nat" where
  "max_column ws = (case map (\<lambda>kv. snd (fst kv)) (cells ws) of [] \<Rightarrow> 1 | c # cs \<Rightarrow> fold max cs c)"

text \<open>\<open>ws.append(values)\<close>: a new cell for every value, in the row after \<open>current_row\<close>.\<close>

fun put_row ::
  "nat \<Rightarrow> nat \<Rightarrow> pyval list \<Rightarrow> ((nat \<times> nat) \<times> cell) list \<Rightarrow> error + ((nat \<times> nat) \<times> cell) list" where
  "put_row r c [] cs = Inr cs"
| "put_row r c (v # vs) cs =
     (case bind_value v of
        Inl e \<Rightarrow> Inl e
      | Inr x \<Rightarrow> put_row r (Suc c) vs (AList.update (r, c) (new_cell x) cs))"

definition append :: "worksheet \<Rightarrow> pyval list \<Rightarrow> error + worksheet" where
  "append ws values =
     (case put_row (current_row ws + 1) 1 values (cells ws) of
        Inl e \<Rightarrow> Inl e
      | Inr cs \<Rightarrow> Inr (ws\<lparr>cells := cs, current_row := current_row ws + 1\<rparr>))"

text \<open>
  \<open>ws.cell(row, column)\<close> and \<open>ws['D7']\<close>: the cell there, made empty if there is none yet.
  \<open>set_cell\<close> writes a changed cell back, which Python does by mutating the cell object.
\<close>

definition ws_cell :: "worksheet \<Rightarrow> nat \<Rightarrow> nat \<Rightarrow> cell \<times> worksheet" where
  "ws_cell ws r c =
     (case map_of (cells ws) (r, c) of
        Some x \<Rightarrow> (x, ws)
      | None \<Rightarrow> (new_cell VNone,
          ws\<lparr>cells := AList.update (r, c) (new_cell VNone) (cells ws),
             current_row := max r (current_row ws)\<rparr>))"

definition set_cell :: "worksheet \<Rightarrow> nat \<Rightarrow> nat \<Rightarrow> cell \<Rightarrow> worksheet" where
  "set_cell ws r c x = ws\<lparr>cells := AList.update (r, c) x (cells ws)\<rparr>"

text \<open>
  \<open>cell.style = name\<close> takes the whole format of the cell from the named style, so what was
  set on the cell directly is gone.
\<close>

definition set_style :: "cell \<Rightarrow> string \<Rightarrow> cell" where
  "set_style x n = x\<lparr>style := n, font := None, fill := None, alignment := None\<rparr>"

text \<open>\<open>ws[letter]\<close>: the cells of a column in the rows 1 to \<open>max_row\<close>.\<close>

fun column_cells :: "worksheet \<Rightarrow> nat \<Rightarrow> nat list \<Rightarrow> cell list \<times> worksheet" where
  "column_cells ws c [] = ([], ws)"
| "column_cells ws c (r # rs) =
     (case ws_cell ws r c of
        (x, ws1) \<Rightarrow> (case column_cells ws1 c rs of (xs, ws2) \<Rightarrow> (x # xs, ws2)))"

text \<open>\<open>str(cell.value)\<close>; a \<open>datetime\<close> prints as \<open>2024-10-25 03:20:36\<close>.\<close>

definition pad :: "nat \<Rightarrow> pystr \<Rightarrow> pystr" where
  "pad n s = replicate (n - length s) 48 @ s"

fun py_str :: "cellval \<Rightarrow> pystr" where
  "py_str VNone = ascii ''None''"
| "py_str (VBool b) = (if b then ascii ''True'' else ascii ''False'')"
| "py_str (VInt i) = str_int i"
| "py_str (VStr s) = s"
| "py_str (VDatetime t) =
     pad 4 (digits (year t)) @ ascii ''-'' @ pad 2 (digits (month t)) @ ascii ''-''
     @ pad 2 (digits (day t)) @ ascii '' '' @ pad 2 (digits (hour t)) @ ascii '':''
     @ pad 2 (digits (minute t)) @ ascii '':'' @ pad 2 (digits (second t))"

section \<open>\<open>parseChats\<close>\<close>

text \<open>
  The loop over \<open>previous_message_versions\<close>: every entry is subscripted with
  \<open>'created_date'\<close>, and a value other than \<open>''\<close> overwrites \<open>datetime\<close>. Nothing leaves
  the loop early.
\<close>

fun previous_versions :: "pyval \<Rightarrow> pyval list \<Rightarrow> error + pyval" where
  "previous_versions datetime [] = Inr datetime"
| "previous_versions datetime (upload # uploads) =
     (case py_item upload (ascii ''created_date'') of
        Inl e \<Rightarrow> Inl e
      | Inr v \<Rightarrow> previous_versions (if v \<noteq> PStr [] then v else datetime) uploads)"

text \<open>
  The variable \<open>datetime\<close> when it reaches \<open>parseGoogleDate\<close>. The default for a message
  with no \<open>previous_message_versions\<close> is the list of one empty dict.
\<close>

definition messageDatetime :: "pyval \<Rightarrow> error + pyval" where
  "messageDatetime message =
     (case py_get message (ascii ''created_date'') (PStr []) of
        Inl e \<Rightarrow> Inl e
      | Inr datetime \<Rightarrow>
          if \<not> truthy datetime then
            (case py_get message (ascii ''previous_message_versions'') (PList [PDict []]) of
               Inl e \<Rightarrow> Inl e
             | Inr uploads \<Rightarrow>
                 (case py_iter uploads of
                    Inl e \<Rightarrow> Inl e
                  | Inr us \<Rightarrow> previous_versions datetime us))
          else Inr datetime)"

text \<open>\<open>[f.get('export_name', '') for f in ...]\<close> and the check \<open>join\<close> makes of its items.\<close>

fun export_names :: "pyval list \<Rightarrow> error + pyval list" where
  "export_names [] = Inr []"
| "export_names (f # fs) =
     (case py_get f (ascii ''export_name'') (PStr []) of
        Inl e \<Rightarrow> Inl e
      | Inr n \<Rightarrow> (case export_names fs of Inl e \<Rightarrow> Inl e | Inr ns \<Rightarrow> Inr (n # ns)))"

fun str_items :: "pyval list \<Rightarrow> error + pystr list" where
  "str_items [] = Inr []"
| "str_items (PStr s # xs) =
     (case str_items xs of Inl e \<Rightarrow> Inl e | Inr ss \<Rightarrow> Inr (s # ss))"
| "str_items (_ # xs) = Inl TypeError"

definition messageAttachList :: "pyval \<Rightarrow> error + pystr list" where
  "messageAttachList message =
     (case py_get message (ascii ''attached_files'') (PList []) of
        Inl e \<Rightarrow> Inl e
      | Inr files \<Rightarrow>
          (case py_iter files of
             Inl e \<Rightarrow> Inl e
           | Inr fs \<Rightarrow> (case export_names fs of Inl e \<Rightarrow> Inl e | Inr ns \<Rightarrow> str_items ns)))"

text \<open>The conditional expression for \<open>ipAddress\<close>; its last \<open>get\<close> has no default.\<close>

definition messageIpAddress :: "pyval \<Rightarrow> error + pyval" where
  "messageIpAddress message =
     (case py_get message (ascii ''upload_metadata'') PNone of
        Inl e \<Rightarrow> Inl e
      | Inr c \<Rightarrow>
          if truthy c then
            (case py_get message (ascii ''upload_metadata'') (PList [PDict []]) of
               Inl e \<Rightarrow> Inl e
             | Inr um \<Rightarrow>
                 (case py_first um of
                    Inl e \<Rightarrow> Inl e
                  | Inr u \<Rightarrow>
                      (case py_get u (ascii ''backend_upload_metadata'') (PDict []) of
                         Inl e \<Rightarrow> Inl e
                       | Inr b \<Rightarrow> py_get b (ascii ''upload_ip'') PNone)))
          else Inr (PStr []))"

text \<open>
  The first half of the loop body: the six values of the row in the order of the columns,
  and \<open>attachList\<close>. The statements run in the source's order, so the first exception is
  the one Python raises.
\<close>

definition messageFields :: "pystr \<Rightarrow> pyval \<Rightarrow> error + (pyval list \<times> pystr list)" where
  "messageFields chatID message =
     (case py_get message (ascii ''creator'') (PDict []) of
        Inl e \<Rightarrow> Inl e
      | Inr creator \<Rightarrow>
     (case py_get creator (ascii ''email'') (PStr []) of
        Inl e \<Rightarrow> Inl e
      | Inr sender \<Rightarrow>
     (case messageDatetime message of
        Inl e \<Rightarrow> Inl e
      | Inr datetime \<Rightarrow>
     (case parseGoogleDate datetime of
        Inl e \<Rightarrow> Inl e
      | Inr datetimePretty \<Rightarrow>
     (case py_get message (ascii ''text'') (PStr []) of
        Inl e \<Rightarrow> Inl e
      | Inr text \<Rightarrow>
     (case messageAttachList message of
        Inl e \<Rightarrow> Inl e
      | Inr attachList \<Rightarrow>
     (case messageIpAddress message of
        Inl e \<Rightarrow> Inl e
      | Inr ipAddress \<Rightarrow>
          Inr ([PStr chatID, datetimePretty, sender, text, PStr (join [10] attachList),
                ipAddress], attachList))))))))"

text \<open>
  The second half: the row is appended, and with a non-empty \<open>attachList\<close> the cell in
  column 5 of row \<open>max_row\<close> gets the names again (bound as every cell value is), the
  link and the style.
\<close>

definition parseMessage :: "worksheet \<Rightarrow> path \<Rightarrow> path \<Rightarrow> pyval \<Rightarrow> error + worksheet" where
  "parseMessage outWS jsonPath workbookDir message =
     (case messageFields (name (parent jsonPath)) message of
        Inl e \<Rightarrow> Inl e
      | Inr (row, attachList) \<Rightarrow>
          (case append outWS row of
             Inl e \<Rightarrow> Inl e
           | Inr ws1 \<Rightarrow>
               if attachList \<noteq> [] then
                 (case ws_cell ws1 (max_row ws1) 5 of
                    (x, ws2) \<Rightarrow>
                      (case bind_value (PStr (join [10] attachList)) of
                         Inl e \<Rightarrow> Inl e
                       | Inr v \<Rightarrow>
                           Inr (set_cell ws2 (max_row ws1) 5
                             (set_style
                               (x\<lparr>cvalue := v,
                                  hyperlink := Some (replace
                                    (relpath (joinpath (parent jsonPath) (hd attachList))
                                       workbookDir)
                                    92 47)\<rparr>)
                               ''Hyperlink''))))
               else Inr ws1))"

fun parseMessages :: "worksheet \<Rightarrow> path \<Rightarrow> path \<Rightarrow> pyval list \<Rightarrow> error + worksheet" where
  "parseMessages outWS jsonPath workbookDir [] = Inr outWS"
| "parseMessages outWS jsonPath workbookDir (message # messages) =
     (case parseMessage outWS jsonPath workbookDir message of
        Inl e \<Rightarrow> Inl e
      | Inr ws1 \<Rightarrow> parseMessages ws1 jsonPath workbookDir messages)"

text \<open>What the script iterates over for one file: \<open>json.load(f).get('messages', [])\<close>.\<close>

definition fileMessages :: "fsnode \<Rightarrow> path \<Rightarrow> error + pyval list" where
  "fileMessages fs jsonPath =
     (case load fs jsonPath of
        Inl e \<Rightarrow> Inl e
      | Inr data \<Rightarrow>
          (case py_get data (ascii ''messages'') (PList []) of
             Inl e \<Rightarrow> Inl e
           | Inr messages \<Rightarrow> py_iter messages))"

fun parseChats :: "fsnode \<Rightarrow> worksheet \<Rightarrow> path list \<Rightarrow> path \<Rightarrow> error + worksheet" where
  "parseChats fs outWS [] workbookDir = Inr outWS"
| "parseChats fs outWS (jsonPath # jsonFiles) workbookDir =
     (case fileMessages fs jsonPath of
        Inl e \<Rightarrow> Inl e
      | Inr messages \<Rightarrow>
          (case parseMessages outWS jsonPath workbookDir messages of
             Inl e \<Rightarrow> Inl e
           | Inr ws1 \<Rightarrow> parseChats fs ws1 jsonFiles workbookDir))"

section \<open>\<open>autofitColumn\<close> and \<open>cleanup\<close>\<close>

definition longest :: "cellval \<Rightarrow> nat" where
  "longest v = fold max (map length (split 10 (py_str v))) 0"

fun maxLen :: "cell list \<Rightarrow> nat \<Rightarrow> nat" where
  "maxLen [] m = m"
| "maxLen (x # xs) m = maxLen xs (if cvalue x = VNone then m else max m (longest (cvalue x)))"

definition autofitColumn :: "worksheet \<Rightarrow> nat \<Rightarrow> worksheet" where
  "autofitColumn ws colIdx =
     (case column_cells ws colIdx [1..<Suc (max_row ws)] of
        (col, ws1) \<Rightarrow>
          ws1\<lparr>column_width := AList.update colIdx (maxLen col 0 + 2) (column_width ws1)\<rparr>)"

definition wrapAlign :: alignment where
  "wrapAlign = \<lparr>horizontal = None, vertical = None, wrapText = Some True\<rparr>"

definition set_width :: "worksheet \<Rightarrow> nat \<Rightarrow> nat \<Rightarrow> worksheet" where
  "set_width ws c w = ws\<lparr>column_width := AList.update c w (column_width ws)\<rparr>"

definition set_alignment :: "worksheet \<Rightarrow> nat \<Rightarrow> nat \<Rightarrow> alignment \<Rightarrow> worksheet" where
  "set_alignment ws r c a =
     (case ws_cell ws r c of (x, ws1) \<Rightarrow> set_cell ws1 r c (x\<lparr>alignment := Some a\<rparr>))"

definition cleanup :: "worksheet \<Rightarrow> worksheet" where
  "cleanup outWS =
     (let ws1 = autofitColumn outWS 1;
          ws2 = autofitColumn ws1 2;
          ws3 = autofitColumn ws2 3;
          ws4 = set_width ws3 4 80;
          ws5 = set_width ws4 5 50;
          ws6 = autofitColumn ws5 6;
          maxRow = max_row ws6;
          ws7 = set_alignment ws6 maxRow 4 wrapAlign;
          ws8 = set_alignment ws7 maxRow 5 wrapAlign
      in ws8\<lparr>auto_filter_ref := Some ((1, 1), (1, max_column ws8)),
             freeze_panes := Some (2, 1)\<rparr>)"

section \<open>\<open>createWorkbook\<close>\<close>

definition headers :: "pyval list" where
  "headers = map (\<lambda>h. PStr (ascii h))
     [''chatID'', ''datetime UTC'', ''sender'', ''text'', ''attachment'', ''IP address'']"

definition headerFont :: font where
  "headerFont = \<lparr>bold = True, color = Some ''FFFFFF''\<rparr>"

definition headerFill :: fill where
  "headerFill = \<lparr>fill_type = Some ''solid'', fgColor = Some ''000000''\<rparr>"

definition headerAlign :: alignment where
  "headerAlign = \<lparr>horizontal = Some ''center'', vertical = Some ''center'', wrapText = None\<rparr>"

fun style_headers :: "worksheet \<Rightarrow> nat list \<Rightarrow> worksheet" where
  "style_headers ws [] = ws"
| "style_headers ws (col # cols) =
     (case ws_cell ws 1 col of
        (x, ws1) \<Rightarrow>
          style_headers
            (set_cell ws1 1 col
               (x\<lparr>font := Some headerFont, fill := Some headerFill,
                  alignment := Some headerAlign\<rparr>))
            cols)"

text \<open>The active sheet of a new \<open>Workbook()\<close>.\<close>

definition new_sheet :: worksheet where
  "new_sheet = \<lparr>title = ''Sheet'', cells = [], current_row = 0, column_width = [],
     auto_filter_ref = None, freeze_panes = None\<rparr>"

text \<open>
  \<open>createWorkbook\<close> ends with \<open>wb.save(outPath)\<close>: the result is the file that is
  written, its path and the sheet. Saving itself is taken to succeed.
\<close>

definition createWorkbook ::
  "fsnode \<Rightarrow> path \<Rightarrow> path list \<Rightarrow> path \<Rightarrow> error + (path \<times> worksheet)" where
  "createWorkbook fs outPath jsonFiles rootDir =
     (case append (new_sheet\<lparr>title := ''Messages''\<rparr>) headers of
        Inl e \<Rightarrow> Inl e
      | Inr ws1 \<Rightarrow>
          (case parseChats fs (style_headers ws1 [1..<Suc (length headers)]) jsonFiles rootDir of
             Inl e \<Rightarrow> Inl e
           | Inr ws2 \<Rightarrow> Inr (outPath, cleanup ws2)))"

section \<open>\<open>main\<close>\<close>

text \<open>
  A run of the script: the lines it prints, its exit status, and the file it saved.
  \<open>resolve\<close> stands for \<open>Path(arg).expanduser().resolve()\<close>, which depends on the working
  directory and the home of the user. An exception nobody catches ends the process with
  status 1.
\<close>

record outcome =
  stdout :: "pystr list"
  status :: nat
  saved :: "(path \<times> worksheet) option"

definition found_line :: "path list \<Rightarrow> pystr" where
  "found_line jsonFiles =
     ascii ''Found '' @ digits (length jsonFiles)
     @ ascii '' messages.json file(s). Beginning to parse.''"

definition main :: "(pystr \<Rightarrow> path) \<Rightarrow> fsnode \<Rightarrow> pystr list \<Rightarrow> outcome" where
  "main resolve fs argv =
     (if length argv \<noteq> 2 then
        \<lparr>stdout = [ascii ''Usage: python googleChats.py <parentDirectory>''], status = 1,
         saved = None\<rparr>
      else
        let rootDir = resolve (argv ! 1) in
        if \<not> is_dir fs rootDir then
          \<lparr>stdout = [ascii ''Error: '' @ [39] @ path_str rootDir @ [39]
              @ ascii '' is not a directory or cannot be accessed.''],
           status = 1, saved = None\<rparr>
        else
          let jsonFiles = findMessagesJson fs rootDir in
          if jsonFiles = [] then
            \<lparr>stdout = [ascii ''No messages.json files found under '' @ path_str rootDir],
             status = 0, saved = None\<rparr>
          else
            let outXlsx = rootDir @ [ascii ''googleChats.xlsx''] in
            (case createWorkbook fs outXlsx jsonFiles rootDir of
               Inl e \<Rightarrow> \<lparr>stdout = [found_line jsonFiles], status = 1, saved = None\<rparr>
             | Inr wb \<Rightarrow>
                 \<lparr>stdout = [found_line jsonFiles,
                     ascii ''Created Excel workbook: '' @ path_str outXlsx],
                  status = 0, saved = Some wb\<rparr>))"

section \<open>Notions the properties are stated with\<close>

text \<open>
  An entry of a revision history that carries a \<open>created_date\<close>, and the values other than
  \<open>''\<close> that the entries of a history carry, in list order.
\<close>

definition has_created_date :: "pyval \<Rightarrow> bool" where
  "has_created_date u =
     (case u of PDict d \<Rightarrow> map_of d (ascii ''created_date'') \<noteq> None | _ \<Rightarrow> False)"

fun nonempty_dates :: "pyval list \<Rightarrow> pyval list" where
  "nonempty_dates [] = []"
| "nonempty_dates (u # us) =
     (case py_item u (ascii ''created_date'') of
        Inl e \<Rightarrow> nonempty_dates us
      | Inr v \<Rightarrow> if v \<noteq> PStr [] then v # nonempty_dates us else nonempty_dates us)"

text \<open>
  The values the cells of a row take from the values handed to \<open>append\<close>, the values in
  the six columns of a row of the sheet (\<open>None\<close> for a cell that is not there), and the
  condition \<open>openpyxl\<close> keeps on its sheets: no cell lies in a row after \<open>current_row\<close>.
\<close>

fun bind_values :: "pyval list \<Rightarrow> error + cellval list" where
  "bind_values [] = Inr []"
| "bind_values (v # vs) =
     (case bind_value v of
        Inl e \<Rightarrow> Inl e
      | Inr x \<Rightarrow> (case bind_values vs of Inl e \<Rightarrow> Inl e | Inr xs \<Rightarrow> Inr (x # xs)))"

definition row_values :: "worksheet \<Rightarrow> nat \<Rightarrow> cellval option list" where
  "row_values ws r = map (\<lambda>c. map_option cvalue (map_of (cells ws) (r, c))) [1..<7]"

definition tidy :: "worksheet \<Rightarrow> bool" where
  "tidy ws = list_all (\<lambda>kv. fst (fst kv) \<le> current_row ws) (cells ws)"

text \<open>The cells of a row once its values are bound, as \<open>put_row\<close> writes them.\<close>

fun write_row ::
  "nat \<Rightarrow> nat \<Rightarrow> cellval list \<Rightarrow> ((nat \<times> nat) \<times> cell) list \<Rightarrow> ((nat \<times> nat) \<times> cell) list" where
  "write_row r c [] cs = cs"
| "write_row r c (x # xs) cs = write_row r (Suc c) xs (AList.update (r, c) (new_cell x) cs)"

text \<open>
  The messages an export file holds, read off the tree: the file is a JSON object and
  its messages are the items of the list under \<open>messages\<close>, all of them, in the order of the
  list. A file without that key, or with something else than a list under it, holds no
  message.
\<close>

definition stored_messages :: "fsnode \<Rightarrow> path \<Rightarrow> pyval list" where
  "stored_messages fs p =
     (case lookup fs p of
        Some (File (Inr (PDict d))) \<Rightarrow>
          (case map_of d (ascii ''messages'') of Some (PList ms) \<Rightarrow> ms | _ \<Rightarrow> [])
      | _ \<Rightarrow> [])"

definition holds_object :: "fsnode \<Rightarrow> path \<Rightarrow> bool" where
  "holds_object fs p = (case lookup fs p of Some (File (Inr (PDict d))) \<Rightarrow> True | _ \<Rightarrow> False)"

text \<open>
  The messages of the discovered files, each with the path of its file: file after file
  in the order of discovery, and within a file in the order of its list.
\<close>

fun discovered :: "fsnode \<Rightarrow> path list \<Rightarrow> (path \<times> pyval) list" where
  "discovered fs [] = []"
| "discovered fs (p # ps) = map (Pair p) (stored_messages fs p) @ discovered fs ps"

text \<open>
  The attachments of a message, read off the message: the items of the list under
  \<open>attached_files\<close>. An attachment has the export name \<open>n\<close> when it is an object whose
  \<open>export_name\<close> is the text \<open>n\<close>; one with no \<open>export_name\<close> counts with the empty name.
\<close>

definition attachments :: "pyval \<Rightarrow> pyval list" where
  "attachments message =
     (case message of
        PDict m \<Rightarrow> (case map_of m (ascii ''attached_files'') of Some (PList fs) \<Rightarrow> fs | _ \<Rightarrow> [])
      | _ \<Rightarrow> [])"

definition has_export_name :: "pyval \<Rightarrow> pystr \<Rightarrow> bool" where
  "has_export_name f n =
     (case f of
        PDict d \<Rightarrow> (case map_of d (ascii ''export_name'') of Some v \<Rightarrow> v = PStr n | None \<Rightarrow> n = [])
      | _ \<Rightarrow> False)"

text \<open>
  \<open>appended ws ws' items\<close>: the sheet \<open>ws'\<close> is \<open>ws\<close> with one more row for every item, in
  order, each row holding the values of its message; the rows of \<open>ws\<close> are as they were.
\<close>

definition appended :: "worksheet \<Rightarrow> worksheet \<Rightarrow> (path \<times> pyval) list \<Rightarrow> bool" where
  "appended ws ws' items =
     (tidy ws' \<and> current_row ws' = current_row ws + length items
      \<and> (\<forall>i<length items. \<exists>row att xs.
            messageFields (name (parent (fst (items ! i)))) (snd (items ! i)) = Inr (row, att)
            \<and> bind_values row = Inr xs
            \<and> row_values ws' (current_row ws + 1 + i) = map Some xs)
      \<and> (\<forall>r c. r \<le> current_row ws \<longrightarrow> map_of (cells ws') (r, c) = map_of (cells ws) (r, c)))"

text \<open>The attachment cell of a message with attachments, after the link is set.\<close>

definition linked :: "path \<Rightarrow> path \<Rightarrow> pystr list \<Rightarrow> cell" where
  "linked jsonPath workbookDir attachList =
     \<lparr>cvalue = VStr (take 32767 (join [10] attachList)),
      hyperlink = Some (replace
         (relpath (joinpath (parent jsonPath) (hd attachList)) workbookDir) 92 47),
      style = ''Hyperlink'', font = None, fill = None, alignment = None\<rparr>"

text \<open>
  The value of the attachment cell in row \<open>r\<close> of the sheet a call returns; \<open>None\<close> when the
  call raises or the sheet has no such cell.
\<close>

definition attachment_text :: "error + worksheet \<Rightarrow> nat \<Rightarrow> cellval option" where
  "attachment_text res r =
     (case res of Inl e \<Rightarrow> None | Inr ws \<Rightarrow> map_option cvalue (map_of (cells ws) (r, 5)))"

text \<open>The cell \<open>ws.cell\<close> finds or makes at a place.\<close>

definition present :: "worksheet \<Rightarrow> nat \<times> nat \<Rightarrow> cell" where
  "present ws k = (case map_of (cells ws) k of Some x \<Rightarrow> x | None \<Rightarrow> new_cell VNone)"

text \<open>The sheet \<open>createWorkbook\<close> hands to \<open>parseChats\<close>: the styled header row.\<close>

definition header_sheet :: worksheet where
  "header_sheet =
     (case append (new_sheet\<lparr>title := ''Messages''\<rparr>) headers of
        Inl e \<Rightarrow> new_sheet
      | Inr ws \<Rightarrow> style_headers ws [1..<Suc (length headers)])"

text \<open>
  Paths of plain components (none of them empty, \<open>.\<close> or \<open>..\<close>), and a file name that is
  one plain component.
\<close>

definition plain :: "path \<Rightarrow> bool" where
  "plain p = list_all (\<lambda>c. c \<noteq> [] \<and> c \<noteq> ascii ''.'' \<and> c \<noteq> ascii ''..'') p"

definition plain_name :: "pystr \<Rightarrow> bool" where
  "plain_name n = (n \<noteq> [] \<and> n \<noteq> ascii ''.'' \<and> n \<noteq> ascii ''..'' \<and> 47 \<notin> set n)"

text \<open>The cell of the header row in column \<open>c\<close>, as \<open>createWorkbook\<close> styles it.\<close>

definition header_cell :: "nat \<Rightarrow> cell" where
  "header_cell c =
     \<lparr>cvalue = VStr (ascii ([''chatID'', ''datetime UTC'', ''sender'', ''text'',
                    ''attachment'', ''IP address''] ! (c - 1))),
      hyperlink = None, style = ''Normal'',
      font = Some headerFont, fill = Some headerFill, alignment = Some headerAlign\<rparr>"

section \<open>Example inputs\<close>

text \<open>
  A timestamp as newer exports write it: U+202F before \<open>AM\<close>, here with a blank in front
  and a line feed behind.
\<close>

definition raw_nnbsp :: pystr where
  "raw_nnbsp =
     [32] @ ascii ''Friday, October 25, 2024 at 3:20:36'' @ [8239] @ ascii ''AM UTC'' @ [10]"

text \<open>Messages for the examples, as \<open>json.load\<close> returns them.\<close>

definition date1 :: pystr where
  "date1 = ascii ''Friday, October 25, 2024 at 3:20:36 AM UTC''"

definition date2 :: pystr where
  "date2 = ascii ''Saturday, October 26, 2024 at 4:05:00 PM UTC''"

text \<open>No timestamp of its own, two earlier versions with one each.\<close>

definition msg_two_versions :: pyval where
  "msg_two_versions = PDict
     [(ascii ''created_date'', PStr []),
      (ascii ''previous_message_versions'',
         PList [PDict [(ascii ''created_date'', PStr date1)],
                PDict [(ascii ''created_date'', PStr date2)]])]"

text \<open>Only a text: no timestamp and no earlier versions.\<close>

definition msg_text_only :: pyval where
  "msg_text_only = PDict [(ascii ''text'', PStr (ascii ''hi''))]"

text \<open>An upload whose metadata has no entry for the backend.\<close>

definition msg_upload_no_ip :: pyval where
  "msg_upload_no_ip = PDict
     [(ascii ''created_date'', PStr date1),
      (ascii ''upload_metadata'', PList [PDict []])]"

text \<open>Every field present, three attachments.\<close>

definition msg_full :: pyval where
  "msg_full = PDict
     [(ascii ''creator'', PDict [(ascii ''email'', PStr (ascii ''a@b.c''))]),
      (ascii ''created_date'', PStr date1),
      (ascii ''text'', PStr (ascii ''see'')),
      (ascii ''attached_files'',
         PList [PDict [(ascii ''export_name'', PStr (ascii ''a.png''))],
                PDict [(ascii ''export_name'', PStr (ascii ''b.png''))],
                PDict [(ascii ''export_name'', PStr (ascii ''c.pdf''))]]),
      (ascii ''upload_metadata'',
         PList [PDict [(ascii ''backend_upload_metadata'',
                  PDict [(ascii ''upload_ip'', PStr (ascii ''10.0.0.7''))])]])]"

text \<open>A timestamp in another format, one attachment.\<close>

definition msg_bad_date :: pyval where
  "msg_bad_date = PDict
     [(ascii ''created_date'', PStr (ascii ''2024-10-25 03:20:36'')),
      (ascii ''attached_files'', PList [PDict [(ascii ''export_name'', PStr (ascii ''a.png''))]])]"

text \<open>One attachment whose export name has 32768 characters, all of them \<open>a\<close>.\<close>

definition msg_long_name :: pyval where
  "msg_long_name = PDict
     [(ascii ''created_date'', PStr date1),
      (ascii ''attached_files'', PList [PDict [(ascii ''export_name'', PStr (replicate 32768 97))]])]"

text \<open>
  A tree: \<open>/data/Groups\<close> holds the chats \<open>Chat1\<close> (three messages, an image beside
  them) and \<open>Chat2\<close> (file name in capitals, one message), a directory that is itself called
  \<open>messages.json\<close>, and a file of another name.
\<close>

definition example_fs :: fsnode where
  "example_fs = Dir
     [(ascii ''data'', Dir
        [(ascii ''Groups'', Dir
           [(ascii ''Chat1'', Dir
               [(ascii ''messages.json'',
                   File (Inr (PDict [(ascii ''messages'',
                     PList [msg_full, msg_two_versions, msg_upload_no_ip])]))),
                (ascii ''a.png'', File (Inl ValueError))]),
            (ascii ''notes.txt'', File (Inl ValueError)),
            (ascii ''messages.json'', Dir []),
            (ascii ''Chat2'', Dir
               [(ascii ''MESSAGES.JSON'',
                   File (Inr (PDict [(ascii ''messages'', PList [msg_full])])))])])])]"

definition example_root :: path where
  "example_root = [ascii ''data'', ascii ''Groups'']"

text \<open>A tree with one chat whose only message is \<open>msg_text_only\<close>.\<close>

definition fs_text_only :: fsnode where
  "fs_text_only = Dir
     [(ascii ''data'', Dir
        [(ascii ''Chat1'', Dir
           [(ascii ''messages.json'',
               File (Inr (PDict [(ascii ''messages'', PList [msg_text_only])])))])])]"

text \<open>A tree with one chat whose only message is \<open>msg_bad_date\<close>.\<close>

definition fs_bad_date :: fsnode where
  "fs_bad_date = Dir
     [(ascii ''data'', Dir
        [(ascii ''Chat1'', Dir
           [(ascii ''messages.json'',
               File (Inr (PDict [(ascii ''messages'', PList [msg_bad_date])])))])])]"

text \<open>
  A tree with nothing to find: a directory called \<open>messages.json\<close> and a file of another
  name.
\<close>

definition fs_no_export :: fsnode where
  "fs_no_export = Dir
     [(ascii ''data'', Dir
        [(ascii ''messages.json'', Dir [(ascii ''notes.txt'', File (Inl ValueError))]),
         (ascii ''messages.json.bak'', File (Inr (PDict [])))])]"

text \<open>
  A sheet of three rows with the columns 4 and 5 only; the text cell of row 2 is centred.
\<close>

definition small_sheet :: worksheet where
  "small_sheet = new_sheet
     \<lparr>cells :=
        [((1, 4), new_cell (VStr (ascii ''text''))),
         ((1, 5), new_cell (VStr (ascii ''attachment''))),
         ((2, 4), (new_cell (VStr (ascii ''one'')))\<lparr>alignment := Some headerAlign\<rparr>),
         ((2, 5), new_cell (VStr (ascii ''a.png''))),
         ((3, 4), new_cell (VStr (ascii ''two''))),
         ((3, 5), new_cell (VStr []))],
      current_row := 3\<rparr>"

text \<open>
  A tree with two chats that have no messages: an empty list in one file, no
  \<open>messages\<close> key in the other.
\<close>

definition fs_no_messages :: fsnode where
  "fs_no_messages = Dir
     [(ascii ''data'', Dir
        [(ascii ''Chat1'', Dir
           [(ascii ''messages.json'', File (Inr (PDict [(ascii ''messages'', PList [])])))]),
         (ascii ''Chat2'', Dir
           [(ascii ''messages.json'', File (Inr (PDict [])))])])]"

section \<open>Facts about strings and evaluation\<close>

lemma rx_bind_Nil: "rx_bind [] f = []"
  by (simp add: rx_bind_def)

lemma rx_bind_Cons: "rx_bind (x # xs) f = f x @ rx_bind xs f"
  by (simp add: rx_bind_def)

text \<open>
  For evaluation: the matches of the left side are computed before the continuation is
  looked at.
\<close>

lemma rx_bind_cong: "xs = ys \<Longrightarrow> rx_bind xs f = rx_bind ys f"
  by simp

lemmas rx_defs = ch_def digit_value_def digit_zeros_def directive_d_def directive_I_def directive_M_def
  directive_S_def directive_Y_def directive_A_def directive_B_def directive_p_def
  directive_Z_def rawFormat_def

lemmas strptime_eval = strptime_def make_datetime_def rx_defs ascii_def lower_ascii_def
  isspace_def f_weekday_def f_month_def py_int_def strip_def days_in_month_def
  rx_bind_Nil rx_bind_Cons

lemmas cell_eval = check_string_def illegal_character_def Let_def

lemma rev_dropWhile_split:
  "t = rev (dropWhile P (rev t)) @ rev (takeWhile P (rev t))"
proof -
  have "rev (takeWhile P (rev t) @ dropWhile P (rev t)) = t"
    by (simp only: takeWhile_dropWhile_id rev_rev_ident)
  then show ?thesis by (simp only: rev_append)
qed

lemma strip_decompose:
  "\<exists>pre post. s = pre @ strip s @ post \<and> list_all isspace pre \<and> list_all isspace post"
proof -
  let ?t = "dropWhile isspace s"
  have a: "s = takeWhile isspace s @ ?t" by simp
  have "?t = strip s @ rev (takeWhile isspace (rev ?t))"
    unfolding strip_def by (rule rev_dropWhile_split)
  then have c: "s = takeWhile isspace s @ strip s @ rev (takeWhile isspace (rev ?t))"
    using a by simp
  have d: "list_all isspace (takeWhile isspace s)"
    by (simp add: list_all_iff) (meson set_takeWhileD)
  have e: "list_all isspace (rev (takeWhile isspace (rev ?t)))"
    by (simp add: list_all_iff) (meson set_takeWhileD)
  from c d e show ?thesis by blast
qed

lemma strip_ends:
  assumes n: "strip s \<noteq> []"
  shows "\<not> isspace (hd (strip s)) \<and> \<not> isspace (last (strip s))"
proof -
  let ?t = "dropWhile isspace s"
  let ?u = "dropWhile isspace (rev ?t)"
  have u: "?u \<noteq> []" using n by (simp add: strip_def)
  then have l: "\<not> isspace (hd ?u)" by (rule hd_dropWhile)
  have "last (strip s) = hd ?u" using u by (simp add: strip_def last_rev)
  with l have A: "\<not> isspace (last (strip s))" by simp
  have t: "?t \<noteq> []"
  proof
    assume e: "?t = []"
    have "?u = []" unfolding e by simp
    with u show False by simp
  qed
  then have ht: "\<not> isspace (hd ?t)" by (rule hd_dropWhile)
  have "?t = rev ?u @ rev (takeWhile isspace (rev ?t))"
    by (rule rev_dropWhile_split)
  then have "hd ?t = hd (rev ?u)" using u by (metis hd_append2 rev_is_Nil_conv)
  with ht have "\<not> isspace (hd (strip s))" by (simp add: strip_def)
  with A show ?thesis by simp
qed

lemma replace_absent: "old \<noteq> new \<Longrightarrow> old \<notin> set (replace s old new)"
  by (auto simp: replace_def)

lemma strptime_example:
  "strptime (ascii ''Friday, October 25, 2024 at 3:20:36 AM UTC'') =
     Inr \<lparr>year = 2024, month = 10, day = 25, hour = 3, minute = 20, second = 36\<rparr>"
  by (simp add: strptime_eval cong: rx_bind_cong)

text \<open>
  Digits of other scripts, as Python 3.12 reads them: a year in Arabic-Indic digits, a year
  in mathematical bold digits, a day whose second digit and a second that is one digit are
  Arabic-Indic. A day whose first digit is Arabic-Indic matches no alternative of \<open>%d\<close>.
\<close>

lemma strptime_unicode_digits:
  "strptime (ascii ''Friday, October 25, '' @ [1634, 1632, 1634, 1636]
       @ ascii '' at 3:20:36 AM UTC'') =
     Inr \<lparr>year = 2024, month = 10, day = 25, hour = 3, minute = 20, second = 36\<rparr>"
  "strptime (ascii ''Friday, October 25, '' @ [120784, 120782, 120784, 120786]
       @ ascii '' at 3:20:36 AM UTC'') =
     Inr \<lparr>year = 2024, month = 10, day = 25, hour = 3, minute = 20, second = 36\<rparr>"
  "strptime (ascii ''Friday, October 2'' @ [1637] @ ascii '', 2024 at 3:20:'' @ [1638]
       @ ascii '' AM UTC'') =
     Inr \<lparr>year = 2024, month = 10, day = 25, hour = 3, minute = 20, second = 6\<rparr>"
  "strptime (ascii ''Friday, October '' @ [1634, 1637] @ ascii '', 2024 at 3:20:36 AM UTC'') =
     Inl ValueError"
  by (simp_all add: strptime_eval cong: rx_bind_cong)

section \<open>The timestamp of a message\<close>

lemmas msg_eval = messageFields_def messageDatetime_def messageAttachList_def
  messageIpAddress_def parseGoogleDate_def replace_def strptime_eval

lemma previous_versions_last:
  "list_all has_created_date us \<Longrightarrow>
   previous_versions datetime us =
     Inr (if nonempty_dates us = [] then datetime else last (nonempty_dates us))"
proof (induction us arbitrary: datetime)
  case Nil
  show ?case by simp
next
  case (Cons u us)
  from Cons.prems obtain d v where u: "u = PDict d" "map_of d (ascii ''created_date'') = Some v"
    by (auto simp: has_created_date_def split: pyval.splits)
  from Cons.prems have rest: "list_all has_created_date us" by simp
  show ?case
    using u Cons.IH [OF rest] by simp
qed

lemma messageFields_datetime:
  assumes "messageFields chatID message = Inr (row, attachList)"
  shows "\<exists>datetime. messageDatetime message = Inr datetime
           \<and> parseGoogleDate datetime = Inr (row ! 1)"
  using assms unfolding messageFields_def
  by (auto split: sum.splits)

text \<open>
  Claim C1, as the code has it. For a message whose own \<open>created_date\<close> is empty (or
  missing) and whose \<open>previous_message_versions\<close> is a list of entries that each carry a
  \<open>created_date\<close>, the timestamp handed to \<open>parseGoogleDate\<close> for the row is the last value in
  the list that is not \<open>''\<close>; with no such value it stays the message's own. The second cell
  of the row is that timestamp, parsed.
\<close>

theorem revision_timestamp_is_last:
  assumes "py_get message (ascii ''created_date'') (PStr []) = Inr own"
    and "\<not> truthy own"
    and "py_get message (ascii ''previous_message_versions'') (PList [PDict []]) = Inr (PList us)"
    and "list_all has_created_date us"
  shows "messageDatetime message =
           Inr (if nonempty_dates us = [] then own else last (nonempty_dates us))
         \<and> (messageFields chatID message = Inr (row, attachList) \<longrightarrow>
              parseGoogleDate (if nonempty_dates us = [] then own else last (nonempty_dates us))
                = Inr (row ! 1))"
proof -
  have d: "messageDatetime message =
      Inr (if nonempty_dates us = [] then own else last (nonempty_dates us))"
    using assms(1-3) previous_versions_last [OF assms(4), of own]
    by (simp add: messageDatetime_def)
  show ?thesis
  proof (intro conjI impI)
    show "messageDatetime message =
      Inr (if nonempty_dates us = [] then own else last (nonempty_dates us))"
      by (rule d)
  next
    assume "messageFields chatID message = Inr (row, attachList)"
    from messageFields_datetime [OF this] d
    show "parseGoogleDate (if nonempty_dates us = [] then own else last (nonempty_dates us))
        = Inr (row ! 1)"
      by auto
  qed
qed

theorem revision_timestamp_is_last_witness:
  "py_get msg_two_versions (ascii ''created_date'') (PStr []) = Inr (PStr [])
   \<and> \<not> truthy (PStr [])
   \<and> py_get msg_two_versions (ascii ''previous_message_versions'') (PList [PDict []]) =
       Inr (PList [PDict [(ascii ''created_date'', PStr date1)],
                   PDict [(ascii ''created_date'', PStr date2)]])
   \<and> list_all has_created_date
       [PDict [(ascii ''created_date'', PStr date1)], PDict [(ascii ''created_date'', PStr date2)]]
   \<and> messageDatetime msg_two_versions = Inr (PStr date2)
   \<and> messageFields (ascii ''Chat1'') msg_two_versions =
       Inr ([PStr (ascii ''Chat1''),
             PDatetime \<lparr>year = 2024, month = 10, day = 26, hour = 16, minute = 5, second = 0\<rparr>,
             PStr [], PStr [], PStr [], PStr []], [])
   \<and> parseGoogleDate (PStr date2) =
       Inr (PDatetime \<lparr>year = 2024, month = 10, day = 26, hour = 16, minute = 5, second = 0\<rparr>)"
proof -
  let ?us = "[PDict [(ascii ''created_date'', PStr date1)],
              PDict [(ascii ''created_date'', PStr date2)]]"
  have h1: "py_get msg_two_versions (ascii ''created_date'') (PStr []) = Inr (PStr [])"
    by (simp add: msg_two_versions_def ascii_def)
  have h2: "\<not> truthy (PStr [])"
    by simp
  have h3: "py_get msg_two_versions (ascii ''previous_message_versions'') (PList [PDict []]) =
      Inr (PList ?us)"
    by (simp add: msg_two_versions_def ascii_def)
  have h4: "list_all has_created_date ?us"
    by (simp add: has_created_date_def)
  have n: "nonempty_dates ?us = [PStr date1, PStr date2]"
    by (simp add: date1_def date2_def ascii_def)
  have f: "messageFields (ascii ''Chat1'') msg_two_versions =
       Inr ([PStr (ascii ''Chat1''),
             PDatetime \<lparr>year = 2024, month = 10, day = 26, hour = 16, minute = 5, second = 0\<rparr>,
             PStr [], PStr [], PStr [], PStr []], [])"
    by (simp add: msg_two_versions_def date1_def date2_def msg_eval cong: rx_bind_cong)
  from revision_timestamp_is_last [OF h1 h2 h3 h4, of "ascii ''Chat1''" _ "[]"] n f
  have "messageDatetime msg_two_versions = Inr (PStr date2)
      \<and> parseGoogleDate (PStr date2) =
       Inr (PDatetime \<lparr>year = 2024, month = 10, day = 26, hour = 16, minute = 5, second = 0\<rparr>)"
    by simp
  with h1 h2 h3 h4 f show ?thesis
    by blast
qed

text \<open>
  The claim as it was stated, with the first such value, fails: in \<open>msg_two_versions\<close> the
  first dated entry is of October 25 and the row gets October 26.
\<close>

theorem revision_timestamp_first_counterexample:
  "py_get msg_two_versions (ascii ''created_date'') (PStr []) = Inr (PStr [])
   \<and> py_get msg_two_versions (ascii ''previous_message_versions'') (PList [PDict []]) =
       Inr (PList [PDict [(ascii ''created_date'', PStr date1)],
                   PDict [(ascii ''created_date'', PStr date2)]])
   \<and> nonempty_dates [PDict [(ascii ''created_date'', PStr date1)],
                     PDict [(ascii ''created_date'', PStr date2)]] = [PStr date1, PStr date2]
   \<and> parseGoogleDate (PStr date1) =
       Inr (PDatetime \<lparr>year = 2024, month = 10, day = 25, hour = 3, minute = 20, second = 36\<rparr>)
   \<and> messageDatetime msg_two_versions = Inr (PStr date2)
   \<and> messageFields (ascii ''Chat1'') msg_two_versions =
       Inr ([PStr (ascii ''Chat1''),
             PDatetime \<lparr>year = 2024, month = 10, day = 26, hour = 16, minute = 5, second = 0\<rparr>,
             PStr [], PStr [], PStr [], PStr []], [])"
proof (intro conjI)
  show "py_get msg_two_versions (ascii ''created_date'') (PStr []) = Inr (PStr [])"
    by (simp add: msg_two_versions_def ascii_def)
  show "py_get msg_two_versions (ascii ''previous_message_versions'') (PList [PDict []]) =
       Inr (PList [PDict [(ascii ''created_date'', PStr date1)],
                   PDict [(ascii ''created_date'', PStr date2)]])"
    by (simp add: msg_two_versions_def ascii_def)
  show "nonempty_dates [PDict [(ascii ''created_date'', PStr date1)],
                     PDict [(ascii ''created_date'', PStr date2)]] = [PStr date1, PStr date2]"
    by (simp add: date1_def date2_def ascii_def)
  show "parseGoogleDate (PStr date1) =
       Inr (PDatetime \<lparr>year = 2024, month = 10, day = 25, hour = 3, minute = 20, second = 36\<rparr>)"
    by (simp add: date1_def parseGoogleDate_def replace_def strptime_eval cong: rx_bind_cong)
  show "messageDatetime msg_two_versions = Inr (PStr date2)"
    by (simp add: msg_two_versions_def messageDatetime_def date1_def date2_def ascii_def)
  show "messageFields (ascii ''Chat1'') msg_two_versions =
       Inr ([PStr (ascii ''Chat1''),
             PDatetime \<lparr>year = 2024, month = 10, day = 26, hour = 16, minute = 5, second = 0\<rparr>,
             PStr [], PStr [], PStr [], PStr []], [])"
    by (simp add: msg_two_versions_def date1_def date2_def msg_eval cong: rx_bind_cong)
qed

section \<open>A message with no timestamp and no earlier versions\<close>

text \<open>
  Claim C2 says that a message with an empty timestamp and an empty or absent revision
  history gives an empty datetime cell and no error. With the list present and empty the
  code does so. With the list absent it does not: the default of the lookup is a list of
  one empty dict, which the loop subscripts with \<open>'created_date'\<close>, and the \<open>KeyError\<close>
  ends the run before anything is saved.
\<close>

theorem missing_versions_raises:
  "messageFields chatID
       (PDict [(ascii ''text'', PStr (ascii ''hi'')),
               (ascii ''previous_message_versions'', PList [])]) =
     Inr ([PStr chatID, PStr [], PStr [], PStr (ascii ''hi''), PStr [], PStr []], [])
   \<and> messageFields chatID msg_text_only = Inl KeyError
   \<and> parseMessage outWS jsonPath workbookDir msg_text_only = Inl KeyError
   \<and> status (main (\<lambda>arg. [ascii ''data'']) fs_text_only
         [ascii ''googleChats.py'', ascii ''/data'']) = 1
   \<and> saved (main (\<lambda>arg. [ascii ''data'']) fs_text_only
         [ascii ''googleChats.py'', ascii ''/data'']) = None"
proof (intro conjI)
  show "messageFields chatID
       (PDict [(ascii ''text'', PStr (ascii ''hi'')),
               (ascii ''previous_message_versions'', PList [])]) =
     Inr ([PStr chatID, PStr [], PStr [], PStr (ascii ''hi''), PStr [], PStr []], [])"
    by (simp add: msg_eval)
  show k: "messageFields chatID msg_text_only = Inl KeyError" for chatID
    by (simp add: msg_text_only_def msg_eval)
  show p: "parseMessage outWS jsonPath workbookDir msg_text_only = Inl KeyError"
    for outWS jsonPath workbookDir
    by (simp add: parseMessage_def k)
  have f: "findMessagesJson fs_text_only [ascii ''data''] =
      [[ascii ''data'', ascii ''Chat1'', ascii ''messages.json'']]"
    by (simp add: findMessagesJson_def fs_text_only_def is_file_def name_def lower_ascii_def
        ascii_def)
  have m: "fileMessages fs_text_only [ascii ''data'', ascii ''Chat1'', ascii ''messages.json''] =
      Inr [msg_text_only]"
    by (simp add: fileMessages_def load_def fs_text_only_def ascii_def)
  have h: "\<exists>ws. append (new_sheet\<lparr>title := ''Messages''\<rparr>) headers = Inr ws"
    by (simp add: append_def headers_def cell_eval ascii_def)
  have c: "createWorkbook fs_text_only outPath
      [[ascii ''data'', ascii ''Chat1'', ascii ''messages.json'']] rootDir = Inl KeyError"
    for outPath rootDir
    using h by (auto simp: createWorkbook_def m p)
  have d: "is_dir fs_text_only [ascii ''data'']"
    by (simp add: is_dir_def fs_text_only_def ascii_def)
  show "status (main (\<lambda>arg. [ascii ''data'']) fs_text_only
         [ascii ''googleChats.py'', ascii ''/data'']) = 1"
    by (simp add: main_def d f c)
  show "saved (main (\<lambda>arg. [ascii ''data'']) fs_text_only
         [ascii ''googleChats.py'', ascii ''/data'']) = None"
    by (simp add: main_def d f c)
qed

section \<open>The IP address of a message\<close>

text \<open>
  Claim C3 says that the IP cell is the empty string whenever a level of the lookup is
  absent. The code gives \<open>''\<close> when the list \<open>upload_metadata\<close> is absent or empty, as the
  lookups of sender, text and export name do through their defaults. When the list is there
  and its first entry has no \<open>backend_upload_metadata\<close>, or that has no \<open>upload_ip\<close>, the
  last \<open>get\<close> has no default: the value is \<open>None\<close> and the cell has no value.
\<close>

theorem upload_without_ip_is_None:
  "messageIpAddress (PDict []) = Inr (PStr [])
   \<and> messageIpAddress (PDict [(ascii ''upload_metadata'', PList [])]) = Inr (PStr [])
   \<and> messageIpAddress msg_upload_no_ip = Inr PNone
   \<and> messageIpAddress
        (PDict [(ascii ''upload_metadata'',
           PList [PDict [(ascii ''backend_upload_metadata'', PDict [])]])]) = Inr PNone
   \<and> messageFields chatID msg_upload_no_ip =
       Inr ([PStr chatID,
             PDatetime \<lparr>year = 2024, month = 10, day = 25, hour = 3, minute = 20, second = 36\<rparr>,
             PStr [], PStr [], PStr [], PNone], [])
   \<and> bind_value PNone = Inr VNone
   \<and> bind_value (PStr []) = Inr (VStr [])"
proof (intro conjI)
  show "messageIpAddress (PDict []) = Inr (PStr [])"
    by (simp add: messageIpAddress_def)
  show "messageIpAddress (PDict [(ascii ''upload_metadata'', PList [])]) = Inr (PStr [])"
    by (simp add: messageIpAddress_def)
  show "messageIpAddress msg_upload_no_ip = Inr PNone"
    by (simp add: messageIpAddress_def msg_upload_no_ip_def ascii_def)
  show "messageIpAddress
        (PDict [(ascii ''upload_metadata'',
           PList [PDict [(ascii ''backend_upload_metadata'', PDict [])]])]) = Inr PNone"
    by (simp add: messageIpAddress_def)
  show "messageFields chatID msg_upload_no_ip =
       Inr ([PStr chatID,
             PDatetime \<lparr>year = 2024, month = 10, day = 25, hour = 3, minute = 20, second = 36\<rparr>,
             PStr [], PStr [], PStr [], PNone], [])"
    by (simp add: msg_upload_no_ip_def date1_def msg_eval cong: rx_bind_cong)
  show "bind_value PNone = Inr VNone"
    by simp
  show "bind_value (PStr []) = Inr (VStr [])"
    by (simp add: cell_eval)
qed

section \<open>Date normalization\<close>

text \<open>
  Claim C4. \<open>parseGoogleDate\<close> maps the string \<open>Friday, October 25, 2024 at 3:20:36 AM UTC\<close> to
  the date and time 2024-10-25 03:20:36, maps the empty string to the empty string without
  an error, and for every other string \<open>raw\<close> parses the cleaned string: \<open>raw\<close> with every
  U+202F replaced by a space, less the blanks at its two ends. The cleaned string holds no
  U+202F, neither starts nor ends with a blank, and differs from the replaced string by
  blanks at the ends only.
\<close>

theorem parseGoogleDate_normalizes:
  "parseGoogleDate (PStr (ascii ''Friday, October 25, 2024 at 3:20:36 AM UTC'')) =
     Inr (PDatetime \<lparr>year = 2024, month = 10, day = 25, hour = 3, minute = 20, second = 36\<rparr>)
   \<and> parseGoogleDate (PStr []) = Inr (PStr [])
   \<and> (raw \<noteq> [] \<longrightarrow>
        (\<exists>pre cleaned post.
           replace raw 8239 32 = pre @ cleaned @ post
           \<and> list_all isspace pre \<and> list_all isspace post
           \<and> 8239 \<notin> set cleaned
           \<and> (cleaned = [] \<or> (\<not> isspace (hd cleaned) \<and> \<not> isspace (last cleaned)))
           \<and> parseGoogleDate (PStr raw) =
               (case strptime cleaned of Inl e \<Rightarrow> Inl e | Inr t \<Rightarrow> Inr (PDatetime t))))"
proof (intro conjI impI)
  show "parseGoogleDate (PStr (ascii ''Friday, October 25, 2024 at 3:20:36 AM UTC'')) =
     Inr (PDatetime \<lparr>year = 2024, month = 10, day = 25, hour = 3, minute = 20, second = 36\<rparr>)"
  proof -
    have "strip (replace (ascii ''Friday, October 25, 2024 at 3:20:36 AM UTC'') 8239 32) =
        ascii ''Friday, October 25, 2024 at 3:20:36 AM UTC''"
      by (simp add: ascii_def replace_def strip_def isspace_def)
    moreover have "ascii ''Friday, October 25, 2024 at 3:20:36 AM UTC'' \<noteq> []"
      by (simp add: ascii_def)
    ultimately show ?thesis
      by (simp add: parseGoogleDate_def strptime_example)
  qed
next
  show "parseGoogleDate (PStr []) = Inr (PStr [])"
    by (simp add: parseGoogleDate_def)
next
  assume raw: "raw \<noteq> []"
  let ?r = "replace raw 8239 32"
  obtain pre post where d: "?r = pre @ strip ?r @ post"
      and p: "list_all isspace pre" "list_all isspace post"
    using strip_decompose [of ?r] by blast
  have "8239 \<notin> set ?r" by (rule replace_absent) simp
  with d have a: "8239 \<notin> set (strip ?r)"
    by (metis Un_iff set_append)
  have e: "strip ?r = [] \<or> (\<not> isspace (hd (strip ?r)) \<and> \<not> isspace (last (strip ?r)))"
    using strip_ends [of ?r] by blast
  have g: "parseGoogleDate (PStr raw) =
      (case strptime (strip ?r) of Inl e \<Rightarrow> Inl e | Inr t \<Rightarrow> Inr (PDatetime t))"
    using raw by (simp add: parseGoogleDate_def)
  from d p a e g show "\<exists>pre cleaned post.
           replace raw 8239 32 = pre @ cleaned @ post
           \<and> list_all isspace pre \<and> list_all isspace post
           \<and> 8239 \<notin> set cleaned
           \<and> (cleaned = [] \<or> (\<not> isspace (hd cleaned) \<and> \<not> isspace (last cleaned)))
           \<and> parseGoogleDate (PStr raw) =
               (case strptime cleaned of Inl e \<Rightarrow> Inl e | Inr t \<Rightarrow> Inr (PDatetime t))"
    by blast
qed

theorem parseGoogleDate_normalizes_witness:
  "raw_nnbsp \<noteq> []
   \<and> (\<exists>pre cleaned post.
         replace raw_nnbsp 8239 32 = pre @ cleaned @ post
         \<and> list_all isspace pre \<and> list_all isspace post
         \<and> 8239 \<notin> set cleaned
         \<and> (cleaned = [] \<or> (\<not> isspace (hd cleaned) \<and> \<not> isspace (last cleaned)))
         \<and> parseGoogleDate (PStr raw_nnbsp) =
             (case strptime cleaned of Inl e \<Rightarrow> Inl e | Inr t \<Rightarrow> Inr (PDatetime t)))
   \<and> parseGoogleDate (PStr raw_nnbsp) =
       Inr (PDatetime \<lparr>year = 2024, month = 10, day = 25, hour = 3, minute = 20, second = 36\<rparr>)"
proof -
  have h: "raw_nnbsp \<noteq> []"
    by (simp add: raw_nnbsp_def)
  have v: "parseGoogleDate (PStr raw_nnbsp) =
      Inr (PDatetime \<lparr>year = 2024, month = 10, day = 25, hour = 3, minute = 20, second = 36\<rparr>)"
    by (simp add: raw_nnbsp_def parseGoogleDate_def replace_def strptime_eval cong: rx_bind_cong)
  from parseGoogleDate_normalizes [of raw_nnbsp] h v show ?thesis
    by blast
qed

section \<open>Discovery\<close>

lemma rglob_extends:
  "p \<in> set (rglob r n) \<Longrightarrow> \<exists>q. q \<noteq> [] \<and> p = r @ q"
  "p \<in> set (rglob_entries r es) \<Longrightarrow> \<exists>q. q \<noteq> [] \<and> p = r @ q"
proof (induction r n and r es rule: rglob_rglob_entries.induct)
  case (1 p' es)
  from "1.prems" consider e where "e \<in> set es" "p = p' @ [fst e]"
    | "p \<in> set (rglob_entries p' es)"
    by auto
  then show ?case
  proof cases
    case 1
    then show ?thesis by blast
  next
    case 2
    then show ?thesis by (rule "1.IH")
  qed
next
  case (2 p' c)
  then show ?case by simp
next
  case (3 p')
  then show ?case by simp
next
  case (4 p')
  then show ?case by simp
next
  case (5 p' e es)
  from "5.prems" consider "p \<in> set (rglob (p' @ [fst e]) (snd e))"
    | "p \<in> set (rglob_entries p' es)"
    by auto
  then show ?case
  proof cases
    case 1
    from "5.IH"(1) [OF this] obtain q where "q \<noteq> []" "p = (p' @ [fst e]) @ q"
      by blast
    then have "fst e # q \<noteq> [] \<and> p = p' @ (fst e # q)" by simp
    then show ?thesis by blast
  next
    case 2
    then show ?thesis by (rule "5.IH"(2))
  qed
qed

lemma rglob_entries_member:
  "e \<in> set es \<Longrightarrow> set (rglob (r @ [fst e]) (snd e)) \<subseteq> set (rglob_entries r es)"
  by (induction es) auto

lemma lookup_in_rglob:
  "q \<noteq> [] \<Longrightarrow> lookup n q = Some m \<Longrightarrow> r @ q \<in> set (rglob r n)"
proof (induction q arbitrary: n r)
  case Nil
  then show ?case by simp
next
  case (Cons c cs)
  from Cons.prems(2) obtain es n' where n: "n = Dir es" "map_of es c = Some n'"
      and l: "lookup n' cs = Some m"
    by (cases n) (auto split: option.splits)
  from n(2) have e: "(c, n') \<in> set es" by (rule map_of_SomeD)
  show ?case
  proof (cases "cs = []")
    case True
    have "r @ [c] \<in> (\<lambda>e. r @ [fst e]) ` set es"
      using e by force
    then show ?thesis using n True by simp
  next
    case False
    from Cons.IH [OF False l] have "(r @ [c]) @ cs \<in> set (rglob (r @ [c]) n')" .
    with rglob_entries_member [OF e, of r] have "r @ c # cs \<in> set (rglob_entries r es)"
      by auto
    then show ?thesis using n by simp
  qed
qed

lemma lookup_append:
  "lookup n (p @ q) = (case lookup n p of None \<Rightarrow> None | Some m \<Rightarrow> lookup m q)"
proof (induction p arbitrary: n)
  case Nil
  show ?case by simp
next
  case (Cons c cs)
  show ?case
    by (cases n) (auto simp: Cons.IH split: option.splits)
qed

lemma findMessagesJson_paths:
  "set (findMessagesJson fs rootDir) =
     {p. \<exists>q. q \<noteq> [] \<and> p = rootDir @ q \<and> is_file fs p
            \<and> lower_ascii (name p) = ascii ''messages.json''}"
proof (cases "lookup fs rootDir")
  case None
  have "\<not> is_file fs (rootDir @ q)" for q
    by (simp add: is_file_def lookup_append None)
  then show ?thesis
    by (auto simp: findMessagesJson_def None)
next
  case (Some n)
  have "(p \<in> set (rglob rootDir n) \<and> is_file fs p) = (\<exists>q. q \<noteq> [] \<and> p = rootDir @ q \<and> is_file fs p)"
    for p
  proof
    assume "p \<in> set (rglob rootDir n) \<and> is_file fs p"
    with rglob_extends(1) [of p rootDir n] show "\<exists>q. q \<noteq> [] \<and> p = rootDir @ q \<and> is_file fs p"
      by blast
  next
    assume "\<exists>q. q \<noteq> [] \<and> p = rootDir @ q \<and> is_file fs p"
    then obtain q where q: "q \<noteq> []" "p = rootDir @ q" "is_file fs p" by blast
    from q(2,3) obtain m where "lookup n q = Some m"
      by (auto simp: is_file_def lookup_append Some split: option.splits)
    from lookup_in_rglob [OF q(1) this, of rootDir] q
    show "p \<in> set (rglob rootDir n) \<and> is_file fs p" by simp
  qed
  then show ?thesis
    by (auto simp: findMessagesJson_def Some)
qed

text \<open>
  Claim C6. For every tree and every root, \<open>findMessagesJson\<close> returns exactly the paths
  below the root, at any depth, that are files and whose name in lower case is
  \<open>messages.json\<close>.
\<close>

theorem findMessagesJson_exact:
  "set (findMessagesJson fs rootDir) =
     {p. \<exists>q. q \<noteq> [] \<and> p = rootDir @ q \<and> is_file fs p
            \<and> lower_ascii (name p) = ascii ''messages.json''}"
  by (rule findMessagesJson_paths)

theorem findMessagesJson_exact_witness:
  "findMessagesJson example_fs example_root =
     [example_root @ [ascii ''Chat1'', ascii ''messages.json''],
      example_root @ [ascii ''Chat2'', ascii ''MESSAGES.JSON'']]
   \<and> {p. \<exists>q. q \<noteq> [] \<and> p = example_root @ q \<and> is_file example_fs p
            \<and> lower_ascii (name p) = ascii ''messages.json''} =
       {example_root @ [ascii ''Chat1'', ascii ''messages.json''],
        example_root @ [ascii ''Chat2'', ascii ''MESSAGES.JSON'']}"
proof -
  have e: "findMessagesJson example_fs example_root =
     [example_root @ [ascii ''Chat1'', ascii ''messages.json''],
      example_root @ [ascii ''Chat2'', ascii ''MESSAGES.JSON'']]"
    by (simp add: findMessagesJson_def example_fs_def example_root_def is_file_def name_def
        lower_ascii_def ascii_def)
  from findMessagesJson_exact [of example_fs example_root] e show ?thesis
    by simp
qed

section \<open>Facts about the sheet\<close>

lemma put_row_Inr:
  "put_row r c vs cs = Inr cs' \<Longrightarrow> \<exists>xs. bind_values vs = Inr xs \<and> cs' = write_row r c xs cs"
proof (induction vs arbitrary: c cs)
  case Nil
  then show ?case by simp
next
  case (Cons v vs)
  from Cons.prems obtain x where x: "bind_value v = Inr x"
      and p: "put_row r (Suc c) vs (AList.update (r, c) (new_cell x) cs) = Inr cs'"
    by (auto split: sum.splits)
  from Cons.IH [OF p] obtain xs where "bind_values vs = Inr xs"
      "cs' = write_row r (Suc c) xs (AList.update (r, c) (new_cell x) cs)"
    by blast
  with x show ?case by simp
qed

lemma bind_values_length: "bind_values vs = Inr xs \<Longrightarrow> length xs = length vs"
  by (induction vs arbitrary: xs) (auto split: sum.splits)

lemma map_of_write_row:
  "map_of (write_row r c xs cs) (r', c') =
     (if r' = r \<and> c \<le> c' \<and> c' < c + length xs then Some (new_cell (xs ! (c' - c)))
      else map_of cs (r', c'))"
proof (induction xs arbitrary: c cs)
  case Nil
  show ?case by auto
next
  case (Cons x xs)
  show ?case
    by (auto simp: Cons.IH update_conv' Suc_diff_le nth_Cons')
qed

lemma keys_write_row:
  "fst ` set (write_row r c xs cs) = fst ` set cs \<union> {(r, j) | j. c \<le> j \<and> j < c + length xs}"
proof (induction xs arbitrary: c cs)
  case Nil
  show ?case by auto
next
  case (Cons x xs)
  have "{(r, j) | j. c \<le> j \<and> j < c + length (x # xs)} =
      insert (r, c) {(r, j) | j. Suc c \<le> j \<and> j < Suc c + length xs}"
    by (auto simp: Suc_le_eq le_less)
  then show ?case
    by (simp add: Cons.IH dom_update)
qed

lemma max_row_Max:
  "cells ws \<noteq> [] \<Longrightarrow> max_row ws = Max ((\<lambda>kv. fst (fst kv)) ` set (cells ws))"
  by (cases "cells ws") (simp_all add: max_row_def Max.set_eq_fold [symmetric])

lemma max_row_fst:
  "cells ws \<noteq> [] \<Longrightarrow> max_row ws = Max (fst ` fst ` set (cells ws))"
  by (simp add: max_row_Max image_image)

lemma tidy_rows: "tidy ws \<Longrightarrow> k \<in> fst ` set (cells ws) \<Longrightarrow> fst k \<le> current_row ws"
  by (auto simp: tidy_def list_all_iff)

lemma tidy_map_of: "tidy ws \<Longrightarrow> current_row ws < r \<Longrightarrow> map_of (cells ws) (r, c) = None"
proof (rule ccontr)
  assume t: "tidy ws" and r: "current_row ws < r" and "map_of (cells ws) (r, c) \<noteq> None"
  then obtain x where "map_of (cells ws) (r, c) = Some x" by blast
  then have "((r, c), x) \<in> set (cells ws)" by (rule map_of_SomeD)
  then have "(r, c) \<in> fst ` set (cells ws)" by force
  from tidy_rows [OF t this] r show False by simp
qed

lemma append_row:
  assumes t: "tidy ws" and a: "append ws values = Inr ws'" and n: "values \<noteq> []"
  shows "\<exists>xs. bind_values values = Inr xs
          \<and> cells ws' = write_row (current_row ws + 1) 1 xs (cells ws)
          \<and> current_row ws' = current_row ws + 1
          \<and> max_row ws' = current_row ws + 1
          \<and> tidy ws'
          \<and> title ws' = title ws"
proof -
  let ?r = "current_row ws + 1"
  from a obtain cs where p: "put_row ?r 1 values (cells ws) = Inr cs"
      and w: "ws' = ws\<lparr>cells := cs, current_row := ?r\<rparr>"
    by (auto simp: append_def split: sum.splits)
  from put_row_Inr [OF p] obtain xs where b: "bind_values values = Inr xs"
      and cs: "cs = write_row ?r 1 xs (cells ws)"
    by blast
  from bind_values_length [OF b] n have l: "0 < length xs" by simp
  have k: "fst ` set cs = fst ` set (cells ws) \<union> {(?r, j) | j. 1 \<le> j \<and> j < 1 + length xs}"
    unfolding cs by (rule keys_write_row)
  have le: "fst k \<le> ?r" if "k \<in> fst ` set cs" for k
  proof -
    from that k consider "k \<in> fst ` set (cells ws)" | "fst k = ?r"
      by auto
    then show ?thesis
    proof cases
      case 1
      from tidy_rows [OF t 1] show ?thesis by simp
    next
      case 2
      then show ?thesis by simp
    qed
  qed
  have td: "tidy ws'"
    using le by (force simp: tidy_def list_all_iff w)
  have in1: "(?r, 1) \<in> fst ` set cs"
    using k l by auto
  then have ne: "cells ws' \<noteq> []"
    by (auto simp: w)
  have "Max (fst ` fst ` set cs) = ?r"
  proof (rule Max_eqI)
    show "finite (fst ` fst ` set cs)" by simp
    show "y \<le> ?r" if "y \<in> fst ` fst ` set cs" for y
      using that le by auto
    show "?r \<in> fst ` fst ` set cs"
      using in1 by force
  qed
  then have m: "max_row ws' = ?r"
    using max_row_fst [OF ne] by (simp add: w)
  from b cs m td show ?thesis
    by (simp add: w)
qed

lemma tidy_iff: "tidy ws = (\<forall>k \<in> fst ` set (cells ws). fst k \<le> current_row ws)"
  by (auto simp: tidy_def list_all_iff)

lemma tidy_set_cell: "tidy ws \<Longrightarrow> r \<le> current_row ws \<Longrightarrow> tidy (set_cell ws r c x)"
  by (auto simp: tidy_iff set_cell_def dom_update)

lemma messageFields_row:
  assumes "messageFields chatID m = Inr (row, att)"
  shows "\<exists>a b c d. row = [PStr chatID, a, b, c, PStr (join [10] att), d]"
    and "messageAttachList m = Inr att"
  using assms unfolding messageFields_def
  by (auto split: sum.splits)

lemma bind_values_six:
  assumes "bind_values [a, b, c, d, PStr s, f] = Inr xs"
  shows "length xs = 6 \<and> xs ! 4 = VStr (take 32767 s) \<and> bind_value (PStr s) = Inr (xs ! 4)"
  using assms by (auto simp: check_string_def Let_def split: sum.splits if_splits)

lemma parseMessage_cells:
  assumes t: "tidy ws" and p: "parseMessage ws jp wd m = Inr ws'"
  shows "\<exists>row att xs.
      messageFields (name (parent jp)) m = Inr (row, att)
      \<and> bind_values row = Inr xs \<and> length xs = 6 \<and> xs ! 4 = VStr (take 32767 (join [10] att))
      \<and> tidy ws' \<and> current_row ws' = current_row ws + 1
      \<and> (\<forall>r c. map_of (cells ws') (r, c) =
            (if r = current_row ws + 1 \<and> c = 5 \<and> att \<noteq> [] then Some (linked jp wd att)
             else if r = current_row ws + 1 \<and> 1 \<le> c \<and> c < 7 then Some (new_cell (xs ! (c - 1)))
             else map_of (cells ws) (r, c)))"
proof -
  let ?n = "current_row ws + 1"
  from p obtain row att where f: "messageFields (name (parent jp)) m = Inr (row, att)"
    by (cases "messageFields (name (parent jp)) m") (auto simp: parseMessage_def)
  from p f obtain ws1 where a: "append ws row = Inr ws1"
    by (cases "append ws row") (auto simp: parseMessage_def)
  from p f a have w: "(if att \<noteq> [] then
        (case ws_cell ws1 (max_row ws1) 5 of
           (x, ws2) \<Rightarrow>
             (case bind_value (PStr (join [10] att)) of
                Inl e \<Rightarrow> Inl e
              | Inr v \<Rightarrow>
                  Inr (set_cell ws2 (max_row ws1) 5
                    (set_style
                      (x\<lparr>cvalue := v,
                         hyperlink := Some (replace
                           (relpath (joinpath (parent jp) (hd att)) wd) 92 47)\<rparr>)
                      ''Hyperlink''))))
       else Inr ws1) = Inr ws'"
    by (simp add: parseMessage_def)
  from messageFields_row(1) [OF f] obtain a' b c d
    where row: "row = [PStr (name (parent jp)), a', b, c, PStr (join [10] att), d]"
    by blast
  then have ne: "row \<noteq> []" by simp
  from append_row [OF t a ne] obtain xs where b: "bind_values row = Inr xs"
      and cs: "cells ws1 = write_row ?n 1 xs (cells ws)"
      and cr: "current_row ws1 = ?n" and mr: "max_row ws1 = ?n" and t1: "tidy ws1"
    by blast
  from bind_values_six [OF b [unfolded row]]
  have six: "length xs = 6" "xs ! 4 = VStr (take 32767 (join [10] att))"
    and bv: "bind_value (PStr (join [10] att)) = Inr (xs ! 4)"
    by simp_all
  have look1: "map_of (cells ws1) (r, c) =
      (if r = ?n \<and> 1 \<le> c \<and> c < 7 then Some (new_cell (xs ! (c - 1)))
       else map_of (cells ws) (r, c))" for r c
    unfolding cs map_of_write_row using six(1) by simp
  show ?thesis
  proof (cases "att = []")
    case True
    with w have "ws' = ws1" by simp
    with f b six t1 cr look1 True show ?thesis
      by auto
  next
    case False
    have "map_of (cells ws1) (?n, 5) = Some (new_cell (xs ! 4))"
      by (simp add: look1)
    then have c5: "ws_cell ws1 ?n 5 = (new_cell (xs ! 4), ws1)"
      by (simp add: ws_cell_def)
    have w': "ws' = set_cell ws1 ?n 5 (linked jp wd att)"
      using w False mr c5 bv six(2) by (simp add: set_style_def linked_def new_cell_def)
    have t': "tidy ws'"
      unfolding w' using t1 cr by (intro tidy_set_cell) simp_all
    have cr': "current_row ws' = ?n"
      by (simp add: w' set_cell_def cr)
    have look: "map_of (cells ws') (r, c) =
            (if r = ?n \<and> c = 5 \<and> att \<noteq> [] then Some (linked jp wd att)
             else if r = ?n \<and> 1 \<le> c \<and> c < 7 then Some (new_cell (xs ! (c - 1)))
             else map_of (cells ws) (r, c))" for r c
      using False by (simp add: w' set_cell_def update_conv' look1)
    from f b six t' cr' look show ?thesis
      by blast
  qed
qed

lemma upt_1_7: "[1..<7] = [1, 2, 3, 4, 5, 6::nat]"
  by (simp add: upt_rec)

lemma length_six: "length xs = 6 \<Longrightarrow> \<exists>a b c d e f. xs = [a, b, c, d, e, f]"
  by (auto simp: eval_nat_numeral length_Suc_conv)

lemma row_values_cong:
  "(\<And>c. map_of (cells ws') (r, c) = map_of (cells ws) (r, c)) \<Longrightarrow>
   row_values ws' r = row_values ws r"
  by (simp add: row_values_def)

lemma parseMessage_appended:
  assumes t: "tidy ws" and p: "parseMessage ws jp wd m = Inr ws'"
  shows "appended ws ws' [(jp, m)]"
proof -
  let ?n = "current_row ws + 1"
  from parseMessage_cells [OF t p] obtain row att xs where
      f: "messageFields (name (parent jp)) m = Inr (row, att)"
      and b: "bind_values row = Inr xs"
      and six: "length xs = 6" "xs ! 4 = VStr (take 32767 (join [10] att))"
      and t': "tidy ws'" and cr: "current_row ws' = ?n"
      and look: "\<And>r c. map_of (cells ws') (r, c) =
            (if r = ?n \<and> c = 5 \<and> att \<noteq> [] then Some (linked jp wd att)
             else if r = ?n \<and> 1 \<le> c \<and> c < 7 then Some (new_cell (xs ! (c - 1)))
             else map_of (cells ws) (r, c))"
    by blast
  from length_six [OF six(1)] obtain x1 x2 x3 x4 x5 x6 where xs: "xs = [x1, x2, x3, x4, x5, x6]"
    by blast
  with six(2) have x5: "x5 = VStr (take 32767 (join [10] att))" by simp
  have rv: "row_values ws' ?n = map Some xs"
    unfolding row_values_def upt_1_7
    by (simp add: look xs x5 linked_def new_cell_def)
  have fr: "map_of (cells ws') (r, c) = map_of (cells ws) (r, c)" if "r \<le> current_row ws" for r c
    using that by (simp add: look)
  from f b rv t' cr fr show ?thesis
    by (simp add: appended_def)
qed

lemma appended_Nil: "tidy ws \<Longrightarrow> appended ws ws []"
  by (simp add: appended_def)

lemma appended_append:
  assumes a: "appended ws ws1 xs" and b: "appended ws1 ws2 ys"
  shows "appended ws ws2 (xs @ ys)"
proof -
  let ?n = "current_row ws"
  from a have c1: "current_row ws1 = ?n + length xs"
      and r1: "\<And>i. i < length xs \<Longrightarrow> \<exists>row att vs.
            messageFields (name (parent (fst (xs ! i)))) (snd (xs ! i)) = Inr (row, att)
            \<and> bind_values row = Inr vs
            \<and> row_values ws1 (?n + 1 + i) = map Some vs"
      and f1: "\<And>r c. r \<le> ?n \<Longrightarrow> map_of (cells ws1) (r, c) = map_of (cells ws) (r, c)"
    by (simp_all add: appended_def)
  from b have t2: "tidy ws2" and c2: "current_row ws2 = current_row ws1 + length ys"
      and r2: "\<And>i. i < length ys \<Longrightarrow> \<exists>row att vs.
            messageFields (name (parent (fst (ys ! i)))) (snd (ys ! i)) = Inr (row, att)
            \<and> bind_values row = Inr vs
            \<and> row_values ws2 (current_row ws1 + 1 + i) = map Some vs"
      and f2: "\<And>r c. r \<le> current_row ws1 \<Longrightarrow> map_of (cells ws2) (r, c) = map_of (cells ws1) (r, c)"
    by (simp_all add: appended_def)
  have rows: "\<exists>row att vs.
            messageFields (name (parent (fst ((xs @ ys) ! i)))) (snd ((xs @ ys) ! i)) = Inr (row, att)
            \<and> bind_values row = Inr vs
            \<and> row_values ws2 (?n + 1 + i) = map Some vs" if i: "i < length (xs @ ys)" for i
  proof (cases "i < length xs")
    case True
    have "row_values ws2 (?n + 1 + i) = row_values ws1 (?n + 1 + i)"
      by (rule row_values_cong, rule f2) (use True c1 in simp)
    with r1 [OF True] True show ?thesis
      by (simp add: nth_append)
  next
    case False
    with i have j: "i - length xs < length ys" by simp
    have "current_row ws1 + 1 + (i - length xs) = ?n + 1 + i"
      using False c1 by simp
    with r2 [OF j] False show ?thesis
      by (simp add: nth_append)
  qed
  have frame: "map_of (cells ws2) (r, c) = map_of (cells ws) (r, c)" if "r \<le> ?n" for r c
    using that f1 [of r c] f2 [of r c] c1 by simp
  from t2 c1 c2 rows frame show ?thesis
    unfolding appended_def by (intro conjI allI impI) simp_all
qed

lemma parseMessages_appended:
  "tidy ws \<Longrightarrow> parseMessages ws jp wd ms = Inr ws' \<Longrightarrow> appended ws ws' (map (Pair jp) ms)"
proof (induction ms arbitrary: ws)
  case Nil
  then show ?case by (simp add: appended_Nil)
next
  case (Cons m ms)
  from Cons.prems(2) obtain ws1 where p: "parseMessage ws jp wd m = Inr ws1"
      and q: "parseMessages ws1 jp wd ms = Inr ws'"
    by (auto split: sum.splits)
  from parseMessage_appended [OF Cons.prems(1) p] have a: "appended ws ws1 [(jp, m)]" .
  then have "tidy ws1" by (simp add: appended_def)
  from Cons.IH [OF this q] have "appended ws1 ws' (map (Pair jp) ms)" .
  from appended_append [OF a this] show ?case by simp
qed

text \<open>
  What \<open>parseChats\<close> iterates over is what the file holds. A string or a dict under
  \<open>messages\<close> is iterated too, but its items are strings, and the first of them ends the run
  at \<open>message.get\<close>.
\<close>

lemma parseMessage_of_text: "parseMessage ws jp wd (PStr k) = Inl AttributeError"
  by (simp add: parseMessage_def messageFields_def)

lemma parseMessages_of_texts:
  "parseMessages ws jp wd (map (\<lambda>x. PStr (g x)) xs) = Inr ws' \<Longrightarrow> xs = []"
  by (cases xs) (simp_all add: parseMessage_of_text)

lemma fileMessages_stored:
  assumes m: "fileMessages fs p = Inr ms" and q: "parseMessages ws p wd ms = Inr ws1"
  shows "ms = stored_messages fs p" and "holds_object fs p"
proof -
  from m obtain data v where l: "load fs p = Inr data"
      and g: "py_get data (ascii ''messages'') (PList []) = Inr v"
      and i: "py_iter v = Inr ms"
    by (auto simp: fileMessages_def split: sum.splits)
  from g obtain d where d: "data = PDict d"
      and v: "v = (case map_of d (ascii ''messages'') of Some x \<Rightarrow> x | None \<Rightarrow> PList [])"
    by (cases data) auto
  from l d have k: "lookup fs p = Some (File (Inr (PDict d)))"
    by (auto simp: load_def split: option.splits fsnode.splits)
  then show "holds_object fs p"
    by (simp add: holds_object_def)
  show "ms = stored_messages fs p"
  proof (cases v)
    case (PList xs)
    with i have "ms = xs" by simp
    with v PList k show ?thesis
      by (auto simp: stored_messages_def split: option.splits)
  next
    case (PDict dd)
    with i have e: "ms = map (\<lambda>kv. PStr (fst kv)) dd" by simp
    from q [unfolded e] have "dd = []" by (rule parseMessages_of_texts)
    with e v PDict k show ?thesis
      by (auto simp: stored_messages_def split: option.splits)
  next
    case (PStr t)
    with i have e: "ms = map (\<lambda>c. PStr [c]) t" by simp
    from q [unfolded e] have "t = []" by (rule parseMessages_of_texts)
    with e v PStr k show ?thesis
      by (auto simp: stored_messages_def split: option.splits)
  qed (use i in simp_all)
qed

lemma parseChats_appended:
  "tidy ws \<Longrightarrow> parseChats fs ws jsonFiles wd = Inr ws' \<Longrightarrow>
   appended ws ws' (discovered fs jsonFiles) \<and> list_all (holds_object fs) jsonFiles"
proof (induction jsonFiles arbitrary: ws)
  case Nil
  then show ?case by (simp add: appended_Nil)
next
  case (Cons p ps)
  from Cons.prems(2) obtain ms ws1 where m: "fileMessages fs p = Inr ms"
      and q: "parseMessages ws p wd ms = Inr ws1"
      and r: "parseChats fs ws1 ps wd = Inr ws'"
    by (auto split: sum.splits)
  from fileMessages_stored [OF m q] have s: "ms = stored_messages fs p" and h: "holds_object fs p" .
  from parseMessages_appended [OF Cons.prems(1) q] have a: "appended ws ws1 (map (Pair p) ms)" .
  then have "tidy ws1" by (simp add: appended_def)
  from Cons.IH [OF this r] have b: "appended ws1 ws' (discovered fs ps)"
      and l: "list_all (holds_object fs) ps"
    by simp_all
  from appended_append [OF a b] s h l show ?case by simp
qed

lemma keys_dom: "fst ` set (cells ws) = dom (map_of (cells ws))"
  by (simp add: dom_map_of_conv_image_fst)

lemma max_row_dom:
  "max_row ws = (if dom (map_of (cells ws)) = {} then 1 else Max (fst ` dom (map_of (cells ws))))"
proof (cases "cells ws = []")
  case True
  then show ?thesis by (simp add: max_row_def)
next
  case False
  then have "dom (map_of (cells ws)) \<noteq> {}"
    by (cases "cells ws") (auto simp: dom_map_of_conv_image_fst)
  then show ?thesis
    using max_row_fst [OF False] by (simp add: keys_dom)
qed

lemma max_row_grow:
  assumes d: "dom (map_of (cells ws')) = dom (map_of (cells ws)) \<union> A"
    and a: "\<And>k. k \<in> A \<Longrightarrow> fst k \<le> max_row ws"
    and e: "\<And>k. k \<in> A \<Longrightarrow> dom (map_of (cells ws)) = {} \<Longrightarrow> fst k = 1"
  shows "max_row ws' = max_row ws"
proof (cases "dom (map_of (cells ws)) = {}")
  case True
  show ?thesis
  proof (cases "A = {}")
    case True
    with d show ?thesis by (simp add: max_row_dom)
  next
    case False
    have "fst ` A = {1}"
      using False e [OF _ True] by force
    with d True show ?thesis
      by (simp add: max_row_dom)
  qed
next
  case False
  let ?D = "dom (map_of (cells ws))"
  have fin: "finite (fst ` ?D)" by (simp add: finite_dom_map_of)
  have finA: "finite A"
  proof -
    have "A \<subseteq> dom (map_of (cells ws'))" using d by blast
    then show ?thesis by (rule finite_subset) (simp add: finite_dom_map_of)
  qed
  have m: "max_row ws = Max (fst ` ?D)" using False by (simp add: max_row_dom)
  have "Max (fst ` (?D \<union> A)) = Max (fst ` ?D)"
  proof (rule Max_eqI)
    show "finite (fst ` (?D \<union> A))" using finA by (simp add: finite_dom_map_of)
    show "y \<le> Max (fst ` ?D)" if "y \<in> fst ` (?D \<union> A)" for y
    proof -
      from that consider "y \<in> fst ` ?D" | k where "k \<in> A" "y = fst k" by auto
      then show ?thesis
      proof cases
        case 1
        then show ?thesis using fin by simp
      next
        case 2
        with a [of k] m show ?thesis by simp
      qed
    qed
    show "Max (fst ` ?D) \<in> fst ` (?D \<union> A)"
    proof -
      have "Max (fst ` ?D) \<in> fst ` ?D"
        using fin False by (intro Max_in) simp_all
      then show ?thesis by auto
    qed
  qed
  with d m False show ?thesis
    by (simp add: max_row_dom)
qed

lemma ws_cell_effect:
  assumes "ws_cell ws r c = (x, ws1)"
  shows "x = present ws (r, c)"
    and "map_of (cells ws1) = (map_of (cells ws))((r, c) \<mapsto> present ws (r, c))"
    and "column_width ws1 = column_width ws"
  using assms
  by (auto simp: ws_cell_def present_def update_conv' fun_eq_iff split: option.splits)

lemma column_cells_effect:
  assumes "column_cells ws c rs = (xs, ws1)"
  shows "map_of (cells ws1) k =
      (if map_of (cells ws) k = None \<and> snd k = c \<and> fst k \<in> set rs then Some (new_cell VNone)
       else map_of (cells ws) k)"
    and "column_width ws1 = column_width ws"
  using assms
proof (induction rs arbitrary: ws xs)
  case Nil
  { case 1 then show ?case by simp }
  { case 2 then show ?case by simp }
next
  case (Cons r rs)
  { case 1
    from 1 obtain x wsa ys where a: "ws_cell ws r c = (x, wsa)"
        and b: "column_cells wsa c rs = (ys, ws1)"
      by (auto split: prod.splits)
    from Cons.IH(1) [OF b] ws_cell_effect(2) [OF a]
    show ?case
      by (cases k) (auto simp: present_def split: option.splits) }
  { case 2
    from 2 obtain x wsa ys where a: "ws_cell ws r c = (x, wsa)"
        and b: "column_cells wsa c rs = (ys, ws1)"
      by (auto split: prod.splits)
    from Cons.IH(2) [OF b] ws_cell_effect(3) [OF a]
    show ?case by simp }
qed

lemma autofitColumn_cells:
  "map_of (cells (autofitColumn ws c)) k =
      (if map_of (cells ws) k = None \<and> snd k = c \<and> 1 \<le> fst k \<and> fst k \<le> max_row ws
       then Some (new_cell VNone) else map_of (cells ws) k)"
proof -
  obtain xs ws1 where cc: "column_cells ws c [1..<Suc (max_row ws)] = (xs, ws1)"
    by (cases "column_cells ws c [1..<Suc (max_row ws)]") blast
  have "cells (autofitColumn ws c) = cells ws1"
    unfolding autofitColumn_def cc by simp
  with column_cells_effect(1) [OF cc, of k] show ?thesis
    by auto
qed

lemma autofitColumn_max_row: "max_row (autofitColumn ws c) = max_row ws"
proof (rule max_row_grow)
  let ?A = "{k. map_of (cells ws) k = None \<and> snd k = c \<and> 1 \<le> fst k \<and> fst k \<le> max_row ws}"
  show "dom (map_of (cells (autofitColumn ws c))) = dom (map_of (cells ws)) \<union> ?A"
    by (auto simp: dom_def autofitColumn_cells split: if_splits)
  show "fst k \<le> max_row ws" if "k \<in> ?A" for k
    using that by simp
  show "fst k = 1" if "k \<in> ?A" "dom (map_of (cells ws)) = {}" for k
    using that by (simp add: max_row_dom)
qed

lemma set_width_cells: "cells (set_width ws c w) = cells ws"
  by (simp add: set_width_def)

lemma set_width_max_row: "max_row (set_width ws c w) = max_row ws"
  by (simp add: max_row_def set_width_cells)

lemma set_alignment_cells:
  "map_of (cells (set_alignment ws r c a)) =
     (map_of (cells ws))((r, c) \<mapsto> (present ws (r, c))\<lparr>alignment := Some a\<rparr>)"
proof -
  obtain x ws1 where w: "ws_cell ws r c = (x, ws1)"
    by (cases "ws_cell ws r c") blast
  from ws_cell_effect(1,2) [OF w] show ?thesis
    by (simp add: set_alignment_def w set_cell_def update_conv')
qed

lemma set_alignment_max_row:
  "max_row (set_alignment ws (max_row ws) c a) = max_row ws"
proof (rule max_row_grow)
  show "dom (map_of (cells (set_alignment ws (max_row ws) c a))) =
      dom (map_of (cells ws)) \<union> {(max_row ws, c)}"
    by (simp add: set_alignment_cells)
  show "fst k \<le> max_row ws" if "k \<in> {(max_row ws, c)}" for k
    using that by simp
  show "fst k = 1" if "k \<in> {(max_row ws, c)}" "dom (map_of (cells ws)) = {}" for k
    using that by (simp add: max_row_dom)
qed

lemma autofit_all_cells:
  "map_of (cells (autofitColumn (set_width (set_width
       (autofitColumn (autofitColumn (autofitColumn ws 1) 2) 3) 4 80) 5 50) 6)) k =
      (if map_of (cells ws) k = None \<and> (snd k = 1 \<or> snd k = 2 \<or> snd k = 3 \<or> snd k = 6)
              \<and> 1 \<le> fst k \<and> fst k \<le> max_row ws
       then Some (new_cell VNone) else map_of (cells ws) k)"
  by (simp add: autofitColumn_cells autofitColumn_max_row set_width_cells set_width_max_row)

lemma autofit_all_max_row:
  "max_row (autofitColumn (set_width (set_width
       (autofitColumn (autofitColumn (autofitColumn ws 1) 2) 3) 4 80) 5 50) 6) = max_row ws"
  by (simp add: autofitColumn_max_row set_width_max_row)

lemma cleanup_cells:
  "map_of (cells (cleanup ws)) (r, c) =
     (if r = max_row ws \<and> (c = 4 \<or> c = 5)
      then Some ((present ws (r, c))\<lparr>alignment := Some wrapAlign\<rparr>)
      else if map_of (cells ws) (r, c) = None \<and> (c = 1 \<or> c = 2 \<or> c = 3 \<or> c = 6)
              \<and> 1 \<le> r \<and> r \<le> max_row ws
      then Some (new_cell VNone)
      else map_of (cells ws) (r, c))"
proof -
  define ws6 where "ws6 = autofitColumn (set_width (set_width
       (autofitColumn (autofitColumn (autofitColumn ws 1) 2) 3) 4 80) 5 50) 6"
  define m where "m = max_row ws"
  define ws7 where "ws7 = set_alignment ws6 m 4 wrapAlign"
  define ws8 where "ws8 = set_alignment ws7 m 5 wrapAlign"
  have m6: "max_row ws6 = m"
    unfolding ws6_def m_def by (rule autofit_all_max_row)
  have l6: "map_of (cells ws6) k =
      (if map_of (cells ws) k = None \<and> (snd k = 1 \<or> snd k = 2 \<or> snd k = 3 \<or> snd k = 6)
              \<and> 1 \<le> fst k \<and> fst k \<le> m
       then Some (new_cell VNone) else map_of (cells ws) k)" for k
    unfolding ws6_def m_def by (rule autofit_all_cells)
  have p6: "present ws6 (r', 4) = present ws (r', 4)" "present ws6 (r', 5) = present ws (r', 5)"
    for r'
    by (simp_all add: present_def l6)
  have l7: "map_of (cells ws7) =
      (map_of (cells ws6))((m, 4) \<mapsto> (present ws (m, 4))\<lparr>alignment := Some wrapAlign\<rparr>)"
    unfolding ws7_def by (simp add: set_alignment_cells p6)
  have p7: "present ws7 (m, 5) = present ws (m, 5)"
    by (simp add: present_def l7 l6)
  have l8: "map_of (cells ws8) =
      (map_of (cells ws7))((m, 5) \<mapsto> (present ws (m, 5))\<lparr>alignment := Some wrapAlign\<rparr>)"
    unfolding ws8_def by (simp add: set_alignment_cells p7)
  have "cells (cleanup ws) = cells ws8"
    by (simp add: cleanup_def Let_def ws8_def ws7_def ws6_def m_def autofitColumn_max_row
        set_width_max_row)
  then have "map_of (cells (cleanup ws)) (r, c) = map_of (cells ws8) (r, c)"
    by simp
  also have "\<dots> = (if r = m \<and> (c = 4 \<or> c = 5)
      then Some ((present ws (r, c))\<lparr>alignment := Some wrapAlign\<rparr>)
      else if map_of (cells ws) (r, c) = None \<and> (c = 1 \<or> c = 2 \<or> c = 3 \<or> c = 6)
              \<and> 1 \<le> r \<and> r \<le> m
      then Some (new_cell VNone)
      else map_of (cells ws) (r, c))"
    by (auto simp: l8 l7 l6)
  finally show ?thesis
    unfolding m_def .
qed

lemma cleanup_max_row: "max_row (cleanup ws) = max_row ws"
proof -
  let ?ws1 = "autofitColumn ws 1"
  let ?ws2 = "autofitColumn ?ws1 2"
  let ?ws3 = "autofitColumn ?ws2 3"
  let ?ws5 = "set_width (set_width ?ws3 4 80) 5 50"
  let ?ws6 = "autofitColumn ?ws5 6"
  let ?ws7 = "set_alignment ?ws6 (max_row ?ws6) 4 wrapAlign"
  let ?ws8 = "set_alignment ?ws7 (max_row ?ws6) 5 wrapAlign"
  have m: "max_row ?ws6 = max_row ws"
    by (simp add: autofitColumn_max_row set_width_max_row)
  have m7: "max_row ?ws7 = max_row ?ws6"
    by (rule set_alignment_max_row)
  have "max_row ?ws8 = max_row ?ws7"
    using set_alignment_max_row [of ?ws7 5 wrapAlign] m7 by simp
  with m m7 have "max_row ?ws8 = max_row ws" by simp
  moreover have "cells (cleanup ws) = cells ?ws8"
    by (simp add: cleanup_def Let_def)
  ultimately show ?thesis
    by (simp add: max_row_def)
qed


section \<open>Facts about paths, the header row and the examples\<close>

lemma split_no_sep: "sep \<notin> set s \<Longrightarrow> split sep s = [s]"
  by (induction s) auto

lemma joinpath_plain_name: "plain_name n \<Longrightarrow> joinpath p n = p @ [n]"
  by (cases n) (auto simp: plain_name_def joinpath_def split_no_sep)

lemma normpath_fold_plain:
  "plain p \<Longrightarrow>
   fold (\<lambda>c acc. if c = [] \<or> c = ascii ''.'' then acc
                  else if c = ascii ''..'' then butlast acc
                  else acc @ [c]) p acc = acc @ p"
  by (induction p arbitrary: acc) (auto simp: plain_def)

lemma normpath_plain: "plain p \<Longrightarrow> normpath p = p"
  by (simp add: normpath_def normpath_fold_plain)

lemma commonprefix_append: "commonprefix xs (xs @ ys) = xs"
  by (induction xs) auto

lemma plain_append: "plain (p @ q) = (plain p \<and> plain q)"
  by (simp add: plain_def)

lemma relpath_below:
  assumes "plain start" and "plain rest" and "rest \<noteq> []"
  shows "relpath (start @ rest) start = join [47] rest"
proof -
  have "normpath (start @ rest) = start @ rest"
    using assms by (simp add: normpath_plain plain_append)
  moreover have "normpath start = start"
    using assms by (simp add: normpath_plain)
  ultimately show ?thesis
    using assms(3) by (simp add: relpath_def Let_def commonprefix_append)
qed

lemma header_sheet_eval:
  "header_sheet =
     \<lparr>title = ''Messages'',
      cells = map (\<lambda>(c, h). ((1, c),
          \<lparr>cvalue = VStr (ascii h), hyperlink = None, style = ''Normal'',
           font = Some headerFont, fill = Some headerFill, alignment = Some headerAlign\<rparr>))
        [(1, ''chatID''), (2, ''datetime UTC''), (3, ''sender''), (4, ''text''),
         (5, ''attachment''), (6, ''IP address'')],
      current_row = 1, column_width = [], auto_filter_ref = None, freeze_panes = None\<rparr>"
  by (simp add: header_sheet_def append_def headers_def new_sheet_def ws_cell_def set_cell_def
      new_cell_def upt_rec cell_eval ascii_def)

lemma tidy_header_sheet: "tidy header_sheet"
  by (simp add: header_sheet_eval tidy_def)

lemma createWorkbook_header_sheet:
  "createWorkbook fs outPath jsonFiles rootDir =
     (case parseChats fs header_sheet jsonFiles rootDir of
        Inl e \<Rightarrow> Inl e
      | Inr ws \<Rightarrow> Inr (outPath, cleanup ws))"
proof -
  have "\<exists>ws. append (new_sheet\<lparr>title := ''Messages''\<rparr>) headers = Inr ws"
    by (simp add: append_def headers_def cell_eval ascii_def)
  then show ?thesis
    by (auto simp: createWorkbook_def header_sheet_def)
qed

lemma header_sheet_max_row: "max_row header_sheet = 1"
  by (simp add: header_sheet_eval max_row_def)

lemma header_sheet_cell:
  "map_of (cells header_sheet) (r, c) =
     (if r = 1 \<and> 1 \<le> c \<and> c \<le> 6
      then Some \<lparr>cvalue = VStr (ascii ([''chatID'', ''datetime UTC'', ''sender'', ''text'',
                    ''attachment'', ''IP address''] ! (c - 1))),
                 hyperlink = None, style = ''Normal'',
                 font = Some headerFont, fill = Some headerFill, alignment = Some headerAlign\<rparr>
      else None)"
  by (auto simp: header_sheet_eval)

lemma header_sheet_cells:
  "map_of (cells header_sheet) (r, c) =
     (if r = 1 \<and> 1 \<le> c \<and> c \<le> 6 then Some (header_cell c) else None)"
  by (simp add: header_sheet_cell header_cell_def)

lemma cleanup_header_sheet_cells:
  "map_of (cells (cleanup header_sheet)) (r, c) =
     (if r = 1 \<and> 1 \<le> c \<and> c \<le> 6
      then Some (if c = 4 \<or> c = 5 then (header_cell c)\<lparr>alignment := Some wrapAlign\<rparr>
                 else header_cell c)
      else None)"
  by (auto simp: cleanup_cells header_sheet_max_row header_sheet_cells present_def)

lemma put_row_bind_values:
  "bind_values vs = Inr xs \<Longrightarrow> put_row r c vs cs = Inr (write_row r c xs cs)"
  by (induction vs arbitrary: c cs xs) (auto split: sum.splits)

lemma parseMessage_succeeds:
  assumes f: "messageFields (name (parent jp)) m = Inr (row, att)" and b: "bind_values row = Inr xs"
  shows "\<exists>ws'. parseMessage ws jp wd m = Inr ws'"
proof -
  from messageFields_row(1) [OF f] obtain a' b' c d
    where row: "row = [PStr (name (parent jp)), a', b', c, PStr (join [10] att), d]"
    by blast
  from bind_values_six [OF b [unfolded row]]
  have "bind_value (PStr (join [10] att)) = Inr (xs ! 4)"
    by simp
  with f b show ?thesis
    by (simp add: parseMessage_def append_def put_row_bind_values split: prod.splits)
qed

lemma parseMessages_succeeds:
  "list_all (\<lambda>m. \<exists>row att xs. messageFields (name (parent jp)) m = Inr (row, att)
       \<and> bind_values row = Inr xs) ms \<Longrightarrow>
   \<exists>ws'. parseMessages ws jp wd ms = Inr ws'"
proof (induction ms arbitrary: ws)
  case Nil
  show ?case by simp
next
  case (Cons m ms)
  from Cons.prems obtain row att xs where "messageFields (name (parent jp)) m = Inr (row, att)"
      "bind_values row = Inr xs"
    by auto
  from parseMessage_succeeds [OF this] obtain ws1 where "parseMessage ws jp wd m = Inr ws1"
    by blast
  moreover from Cons.IH [of ws1] Cons.prems obtain ws' where "parseMessages ws1 jp wd ms = Inr ws'"
    by auto
  ultimately show ?case by simp
qed

lemma parseChats_succeeds:
  "list_all (\<lambda>p. \<exists>ms. fileMessages fs p = Inr ms \<and>
       list_all (\<lambda>m. \<exists>row att xs. messageFields (name (parent p)) m = Inr (row, att)
          \<and> bind_values row = Inr xs) ms) jsonFiles \<Longrightarrow>
   \<exists>ws'. parseChats fs ws jsonFiles wd = Inr ws'"
proof (induction jsonFiles arbitrary: ws)
  case Nil
  show ?case by simp
next
  case (Cons p ps)
  from Cons.prems obtain ms where m: "fileMessages fs p = Inr ms"
      and a: "list_all (\<lambda>m. \<exists>row att xs. messageFields (name (parent p)) m = Inr (row, att)
          \<and> bind_values row = Inr xs) ms"
    by auto
  from parseMessages_succeeds [OF a] obtain ws1 where "parseMessages ws p wd ms = Inr ws1"
    by blast
  moreover from Cons.IH [of ws1] Cons.prems obtain ws' where "parseChats fs ws1 ps wd = Inr ws'"
    by auto
  ultimately show ?case using m by simp
qed

lemma parseChats_no_messages:
  "list_all (\<lambda>p. fileMessages fs p = Inr []) jsonFiles \<Longrightarrow>
   parseChats fs ws jsonFiles wd = Inr ws"
  by (induction jsonFiles) simp_all

lemma msg_full_fields:
  "messageFields chatID msg_full =
   Inr ([PStr chatID, PDatetime \<lparr>year = 2024, month = 10, day = 25, hour = 3, minute = 20, second = 36\<rparr>,
     PStr (ascii ''a@b.c''), PStr (ascii ''see''),
     PStr (ascii ''a.png'' @ [10] @ ascii ''b.png'' @ [10] @ ascii ''c.pdf''),
     PStr (ascii ''10.0.0.7'')], [ascii ''a.png'', ascii ''b.png'', ascii ''c.pdf''])"
  by (simp add: msg_full_def date1_def msg_eval cong: rx_bind_cong)

lemma msg_two_versions_fields:
  "messageFields chatID msg_two_versions =
     Inr ([PStr chatID,
           PDatetime \<lparr>year = 2024, month = 10, day = 26, hour = 16, minute = 5, second = 0\<rparr>,
           PStr [], PStr [], PStr [], PStr []], [])"
  by (simp add: msg_two_versions_def date1_def date2_def msg_eval cong: rx_bind_cong)

lemma msg_upload_no_ip_fields:
  "messageFields chatID msg_upload_no_ip =
       Inr ([PStr chatID,
             PDatetime \<lparr>year = 2024, month = 10, day = 25, hour = 3, minute = 20, second = 36\<rparr>,
             PStr [], PStr [], PStr [], PNone], [])"
  by (simp add: msg_upload_no_ip_def date1_def msg_eval cong: rx_bind_cong)

lemma example_files:
  "findMessagesJson example_fs example_root =
     [example_root @ [ascii ''Chat1'', ascii ''messages.json''],
      example_root @ [ascii ''Chat2'', ascii ''MESSAGES.JSON'']]"
  by (simp add: findMessagesJson_def example_fs_def example_root_def is_file_def name_def
      lower_ascii_def ascii_def)

lemma example_messages:
  "fileMessages example_fs (example_root @ [ascii ''Chat1'', ascii ''messages.json'']) =
     Inr [msg_full, msg_two_versions, msg_upload_no_ip]"
  "fileMessages example_fs (example_root @ [ascii ''Chat2'', ascii ''MESSAGES.JSON'']) =
     Inr [msg_full]"
  by (simp_all add: fileMessages_def load_def example_fs_def example_root_def ascii_def)

lemma example_stored:
  "stored_messages example_fs (example_root @ [ascii ''Chat1'', ascii ''messages.json'']) =
     [msg_full, msg_two_versions, msg_upload_no_ip]"
  "stored_messages example_fs (example_root @ [ascii ''Chat2'', ascii ''MESSAGES.JSON'']) =
     [msg_full]"
  by (simp_all add: stored_messages_def example_fs_def example_root_def ascii_def)

lemma long_text:
  "check_string (replicate 32768 97) = Inr (replicate 32767 97)"
proof -
  have "\<not> list_ex illegal_character (replicate 32767 97)"
    by (simp add: list_ex_iff illegal_character_def)
  then show ?thesis
    by (simp add: check_string_def Let_def)
qed

lemma msg_long_name_fields:
  "messageFields chatID msg_long_name =
     Inr ([PStr chatID,
           PDatetime \<lparr>year = 2024, month = 10, day = 25, hour = 3, minute = 20, second = 36\<rparr>,
           PStr [], PStr [], PStr (replicate 32768 97), PStr []], [replicate 32768 97])"
proof -
  have d: "parseGoogleDate (PStr date1) =
      Inr (PDatetime \<lparr>year = 2024, month = 10, day = 25, hour = 3, minute = 20, second = 36\<rparr>)"
    by (simp add: date1_def parseGoogleDate_def replace_def strptime_eval cong: rx_bind_cong)
  have t: "date1 \<noteq> []"
    by (simp add: date1_def ascii_def)
  show ?thesis
    by (simp add: msg_long_name_def messageFields_def messageDatetime_def messageAttachList_def
        messageIpAddress_def d t ascii_def)
qed

lemma msg_bad_date_fields: "messageFields chatID msg_bad_date = Inl ValueError"
  by (simp add: msg_bad_date_def msg_eval cong: rx_bind_cong)

section \<open>The attachment cell\<close>

lemma export_names_of:
  "list_all2 has_export_name fs names \<Longrightarrow> export_names fs = Inr (map PStr names)"
proof (induction rule: list_all2_induct)
  case Nil
  show ?case by simp
next
  case (Cons f fs n names)
  from Cons.hyps(1) have "py_get f (ascii ''export_name'') (PStr []) = Inr (PStr n)"
    by (auto simp: has_export_name_def split: pyval.splits option.splits)
  with Cons.IH show ?case by simp
qed

lemma str_items_texts: "str_items (map PStr names) = Inr names"
  by (induction names) simp_all

lemma messageAttachList_names:
  assumes a: "list_all2 has_export_name (attachments message) names" and n: "names \<noteq> []"
  shows "messageAttachList message = Inr names"
proof -
  from a n have "attachments message \<noteq> []"
    by (auto dest: list_all2_lengthD)
  then obtain m where m: "message = PDict m"
      "map_of m (ascii ''attached_files'') = Some (PList (attachments message))"
    by (auto simp: attachments_def split: pyval.splits option.splits)
  from export_names_of [OF a] show ?thesis
    by (simp add: messageAttachList_def m str_items_texts)
qed

text \<open>
  Claim C5 says that for every message with an attachment the attachment cell shows all
  the export names joined by line feeds. The code writes that cell only when nothing in the
  message raises, and the sheet cuts every text to its first 32767 characters. For a message
  whose row is written, the attachment cell of the row (column 5 of the row that
  \<open>parseMessage\<close> appends) shows the names of all the attachments of the message joined by
  line feeds, cut to 32767 characters, so the whole joined text when that is no longer. Its
  hyperlink is the path of the first attachment only: the parent directory of the export
  file joined with the first name, made relative to \<open>workbookDir\<close> by \<open>os.path.relpath\<close>,
  with every backslash replaced by a slash. When the export file lies in the directory
  \<open>sub\<close> below \<open>workbookDir\<close> and the first name is a plain file name, the link is
  \<open>sub/name\<close>.
\<close>

theorem attachment_cell_and_link:
  assumes "tidy outWS"
    and "parseMessage outWS jsonPath workbookDir message = Inr ws'"
    and "list_all2 has_export_name (attachments message) names"
    and "names \<noteq> []"
  shows "current_row ws' = current_row outWS + 1
    \<and> (\<exists>x. map_of (cells ws') (current_row ws', 5) = Some x
         \<and> cvalue x = VStr (take 32767 (join [10] names))
         \<and> (length (join [10] names) \<le> 32767 \<longrightarrow> cvalue x = VStr (join [10] names))
         \<and> hyperlink x = Some (replace
               (relpath (joinpath (parent jsonPath) (hd names)) workbookDir) 92 47)
         \<and> 92 \<notin> set (replace
               (relpath (joinpath (parent jsonPath) (hd names)) workbookDir) 92 47)
         \<and> (\<forall>sub. plain workbookDir \<and> plain sub \<and> parent jsonPath = workbookDir @ sub
                 \<and> plain_name (hd names) \<longrightarrow>
               hyperlink x = Some (replace (join [47] (sub @ [hd names])) 92 47)))"
proof -
  from parseMessage_cells [OF assms(1,2)] obtain row att xs where
      f: "messageFields (name (parent jsonPath)) message = Inr (row, att)"
      and cr: "current_row ws' = current_row outWS + 1"
      and look: "\<And>r c. map_of (cells ws') (r, c) =
            (if r = current_row outWS + 1 \<and> c = 5 \<and> att \<noteq> [] then Some (linked jsonPath workbookDir att)
             else if r = current_row outWS + 1 \<and> 1 \<le> c \<and> c < 7 then Some (new_cell (xs ! (c - 1)))
             else map_of (cells outWS) (r, c))"
    by blast
  from messageFields_row(2) [OF f] messageAttachList_names [OF assms(3,4)]
  have att: "att = names" by simp
  let ?x = "linked jsonPath workbookDir names"
  let ?link = "replace (relpath (joinpath (parent jsonPath) (hd names)) workbookDir) 92 47"
  have c: "map_of (cells ws') (current_row ws', 5) = Some ?x"
    using assms(4) by (simp add: look cr att)
  have v: "cvalue ?x = VStr (take 32767 (join [10] names))" and h: "hyperlink ?x = Some ?link"
    by (simp_all add: linked_def)
  have w: "length (join [10] names) \<le> 32767 \<longrightarrow> cvalue ?x = VStr (join [10] names)"
    by (simp add: linked_def)
  have b: "92 \<notin> set ?link"
    by (rule replace_absent) simp
  have p: "hyperlink ?x = Some (replace (join [47] (sub @ [hd names])) 92 47)"
    if "plain workbookDir \<and> plain sub \<and> parent jsonPath = workbookDir @ sub
          \<and> plain_name (hd names)" for sub
  proof -
    from that have pn: "plain_name (hd names)" and pw: "plain workbookDir"
        and ps: "plain sub" and pj: "parent jsonPath = workbookDir @ sub"
      by simp_all
    have "joinpath (parent jsonPath) (hd names) = workbookDir @ (sub @ [hd names])"
      by (simp add: joinpath_plain_name [OF pn] pj)
    moreover have "plain (sub @ [hd names])"
      using ps pn by (simp add: plain_append) (simp add: plain_def plain_name_def)
    ultimately have "relpath (joinpath (parent jsonPath) (hd names)) workbookDir =
        join [47] (sub @ [hd names])"
      using relpath_below [OF pw, of "sub @ [hd names]"] by simp
    with h show ?thesis by simp
  qed
  from cr c v w h b p show ?thesis
    by blast
qed

theorem attachment_cell_and_link_witness:
  "tidy header_sheet
   \<and> list_all2 has_export_name (attachments msg_full)
        [ascii ''a.png'', ascii ''b.png'', ascii ''c.pdf'']
   \<and> length (join [10] [ascii ''a.png'', ascii ''b.png'', ascii ''c.pdf'']) = 17
   \<and> plain example_root \<and> plain [ascii ''Chat1'']
   \<and> parent (example_root @ [ascii ''Chat1'', ascii ''messages.json'']) =
       example_root @ [ascii ''Chat1'']
   \<and> plain_name (ascii ''a.png'')
   \<and> (\<exists>ws'. parseMessage header_sheet
          (example_root @ [ascii ''Chat1'', ascii ''messages.json'']) example_root msg_full = Inr ws'
        \<and> current_row ws' = 2
        \<and> (\<exists>x. map_of (cells ws') (2, 5) = Some x
              \<and> cvalue x = VStr (ascii ''a.png'' @ [10] @ ascii ''b.png'' @ [10] @ ascii ''c.pdf'')
              \<and> hyperlink x = Some (ascii ''Chat1/a.png'')))"
proof -
  let ?jp = "example_root @ [ascii ''Chat1'', ascii ''messages.json'']"
  let ?names = "[ascii ''a.png'', ascii ''b.png'', ascii ''c.pdf'']"
  have t: "tidy header_sheet" by (rule tidy_header_sheet)
  have a: "list_all2 has_export_name (attachments msg_full) ?names"
    by (simp add: attachments_def has_export_name_def msg_full_def ascii_def)
  have n: "?names \<noteq> []" by simp
  have len: "length (join [10] ?names) = 17"
    by (simp add: ascii_def)
  have q: "plain example_root" "plain [ascii ''Chat1'']" "parent ?jp = example_root @ [ascii ''Chat1'']"
    "plain_name (ascii ''a.png'')"
    by (simp_all add: plain_def plain_name_def example_root_def parent_def ascii_def)
  have "\<exists>xs. bind_values
      [PStr (name (parent ?jp)),
       PDatetime \<lparr>year = 2024, month = 10, day = 25, hour = 3, minute = 20, second = 36\<rparr>,
       PStr (ascii ''a@b.c''), PStr (ascii ''see''),
       PStr (ascii ''a.png'' @ [10] @ ascii ''b.png'' @ [10] @ ascii ''c.pdf''),
       PStr (ascii ''10.0.0.7'')] = Inr xs"
    by (simp add: cell_eval ascii_def name_def parent_def example_root_def)
  then obtain xs where b: "bind_values
      [PStr (name (parent ?jp)),
       PDatetime \<lparr>year = 2024, month = 10, day = 25, hour = 3, minute = 20, second = 36\<rparr>,
       PStr (ascii ''a@b.c''), PStr (ascii ''see''),
       PStr (ascii ''a.png'' @ [10] @ ascii ''b.png'' @ [10] @ ascii ''c.pdf''),
       PStr (ascii ''10.0.0.7'')] = Inr xs"
    by blast
  from parseMessage_succeeds [OF msg_full_fields b]
  obtain ws' where p: "parseMessage header_sheet ?jp example_root msg_full = Inr ws'"
    by blast
  have c: "current_row header_sheet + 1 = 2"
    by (simp add: header_sheet_eval)
  have l: "replace (join [47] ([ascii ''Chat1''] @ [hd ?names])) 92 47 = ascii ''Chat1/a.png''"
    by (simp add: replace_def ascii_def)
  have j: "join [10] ?names = ascii ''a.png'' @ [10] @ ascii ''b.png'' @ [10] @ ascii ''c.pdf''"
    by simp
  from attachment_cell_and_link [OF t p a n]
  have cr: "current_row ws' = current_row header_sheet + 1"
    and "\<exists>x. map_of (cells ws') (current_row ws', 5) = Some x
         \<and> (length (join [10] ?names) \<le> 32767 \<longrightarrow> cvalue x = VStr (join [10] ?names))
         \<and> (\<forall>sub. plain example_root \<and> plain sub \<and> parent ?jp = example_root @ sub
                 \<and> plain_name (hd ?names) \<longrightarrow>
               hyperlink x = Some (replace (join [47] (sub @ [hd ?names])) 92 47))"
    by blast+
  then obtain x where x: "map_of (cells ws') (current_row ws', 5) = Some x"
      "length (join [10] ?names) \<le> 32767 \<Longrightarrow> cvalue x = VStr (join [10] ?names)"
      "\<And>sub. plain example_root \<and> plain sub \<and> parent ?jp = example_root @ sub
                 \<and> plain_name (hd ?names) \<Longrightarrow>
               hyperlink x = Some (replace (join [47] (sub @ [hd ?names])) 92 47)"
    by blast
  from cr have cr2: "current_row ws' = 2"
    unfolding c .
  have "length (join [10] ?names) \<le> 32767"
    unfolding len by simp
  then have v: "cvalue x = VStr (join [10] ?names)"
    by (rule x(2))
  have "hyperlink x = Some (replace (join [47] ([ascii ''Chat1''] @ [hd ?names])) 92 47)"
    by (rule x(3)) (simp add: q)
  then have h: "hyperlink x = Some (ascii ''Chat1/a.png'')"
    unfolding l .
  from x(1) v h have "map_of (cells ws') (2, 5) = Some x
              \<and> cvalue x = VStr (ascii ''a.png'' @ [10] @ ascii ''b.png'' @ [10] @ ascii ''c.pdf'')
              \<and> hyperlink x = Some (ascii ''Chat1/a.png'')"
    unfolding cr2 j by simp
  with cr2 have "current_row ws' = 2
        \<and> (\<exists>x. map_of (cells ws') (2, 5) = Some x
              \<and> cvalue x = VStr (ascii ''a.png'' @ [10] @ ascii ''b.png'' @ [10] @ ascii ''c.pdf'')
              \<and> hyperlink x = Some (ascii ''Chat1/a.png''))"
    by blast
  with t a len q p show ?thesis
    by blast
qed

text \<open>
  Claim C5 as it is stated fails on two messages with one attachment each. In
  \<open>msg_long_name\<close> the export name has 32768 characters: the row is written and its
  attachment cell holds the first 32767 of them, which is not the joined list of the names.
  In \<open>msg_bad_date\<close> the timestamp is in another format: \<open>strptime\<close> raises \<open>ValueError\<close>,
  no row is written and there is no attachment cell.
\<close>

theorem attachment_text_counterexample:
  "list_all2 has_export_name (attachments msg_long_name) [replicate 32768 97]
   \<and> current_row header_sheet + 1 = 2
   \<and> attachment_text
        (parseMessage header_sheet [ascii ''data'', ascii ''Chat1'', ascii ''messages.json'']
           [ascii ''data''] msg_long_name) 2 = Some (VStr (replicate 32767 97))
   \<and> VStr (replicate 32767 97) \<noteq> VStr (join [10] [replicate 32768 97])
   \<and> list_all2 has_export_name (attachments msg_bad_date) [ascii ''a.png'']
   \<and> parseMessage header_sheet [ascii ''data'', ascii ''Chat1'', ascii ''messages.json'']
        [ascii ''data''] msg_bad_date = Inl ValueError"
proof -
  let ?jp = "[ascii ''data'', ascii ''Chat1'', ascii ''messages.json'']"
  let ?wd = "[ascii ''data'']"
  let ?row = "[PStr (name (parent ?jp)),
           PDatetime \<lparr>year = 2024, month = 10, day = 25, hour = 3, minute = 20, second = 36\<rparr>,
           PStr [], PStr [], PStr (replicate 32768 97), PStr []]"
  have a: "list_all2 has_export_name (attachments msg_long_name) [replicate 32768 97]"
    by (simp add: attachments_def has_export_name_def msg_long_name_def ascii_def)
  have c: "current_row header_sheet + 1 = 2"
    by (simp add: header_sheet_eval)
  have "check_string (name (parent ?jp)) = Inr (name (parent ?jp))"
    by (simp add: cell_eval ascii_def name_def parent_def)
  moreover have "check_string [] = Inr []"
    by (simp add: cell_eval)
  ultimately have "\<exists>xs. bind_values ?row = Inr xs"
    by (simp add: long_text)
  then obtain xs where b: "bind_values ?row = Inr xs"
    by blast
  from parseMessage_succeeds [OF msg_long_name_fields b]
  obtain ws' where p: "parseMessage header_sheet ?jp ?wd msg_long_name = Inr ws'"
    by blast
  from parseMessage_cells [OF tidy_header_sheet p] obtain row att ys where
      f: "messageFields (name (parent ?jp)) msg_long_name = Inr (row, att)"
      and look: "\<And>r c. map_of (cells ws') (r, c) =
            (if r = current_row header_sheet + 1 \<and> c = 5 \<and> att \<noteq> [] then Some (linked ?jp ?wd att)
             else if r = current_row header_sheet + 1 \<and> 1 \<le> c \<and> c < 7
               then Some (new_cell (ys ! (c - 1)))
             else map_of (cells header_sheet) (r, c))"
    by blast
  from f msg_long_name_fields have att: "att = [replicate 32768 97]"
    by simp
  have "map_of (cells ws') (2, 5) = Some (linked ?jp ?wd [replicate 32768 97])"
    using look [of 2 5] c att by simp
  then have "attachment_text (Inr ws') 2 = Some (VStr (replicate 32767 97))"
    by (simp add: attachment_text_def linked_def)
  then have v: "attachment_text (parseMessage header_sheet ?jp ?wd msg_long_name) 2 =
      Some (VStr (replicate 32767 97))"
    unfolding p .
  have n: "VStr (replicate 32767 97) \<noteq> VStr (join [10] [replicate 32768 (97::nat)])"
    by simp
  have a': "list_all2 has_export_name (attachments msg_bad_date) [ascii ''a.png'']"
    by (simp add: attachments_def has_export_name_def msg_bad_date_def ascii_def)
  have e: "parseMessage header_sheet ?jp ?wd msg_bad_date = Inl ValueError"
    by (simp add: parseMessage_def msg_bad_date_fields)
  from a c v n a' e show ?thesis
    by simp
qed

section \<open>One row for every message\<close>

text \<open>
  Claim C7 says that every message of every discovered file gets one row. The script
  catches no exception, so a file or a message that raises ends the run. When \<open>parseChats\<close>
  returns, every file of the list holds a JSON object, and the sheet has exactly one more
  row for every message the files hold: row \<open>current_row + 1 + i\<close> holds the six values of the
  \<open>i\<close>-th message, counted file after file in the order of discovery and within a file in
  the order of its list. The rows that were there are unchanged and no cell lies in a row
  after the last new one.
\<close>

theorem parseChats_one_row_per_message:
  assumes "tidy outWS"
    and "parseChats fs outWS jsonFiles workbookDir = Inr ws'"
  shows "list_all (holds_object fs) jsonFiles
    \<and> current_row ws' = current_row outWS + length (discovered fs jsonFiles)
    \<and> (\<forall>i<length (discovered fs jsonFiles). \<exists>row att xs.
          messageFields (name (parent (fst (discovered fs jsonFiles ! i))))
              (snd (discovered fs jsonFiles ! i)) = Inr (row, att)
          \<and> bind_values row = Inr xs
          \<and> row_values ws' (current_row outWS + 1 + i) = map Some xs)
    \<and> (\<forall>r c. r \<le> current_row outWS \<longrightarrow>
          map_of (cells ws') (r, c) = map_of (cells outWS) (r, c))
    \<and> (\<forall>r c. current_row ws' < r \<longrightarrow> map_of (cells ws') (r, c) = None)"
proof -
  from parseChats_appended [OF assms] have a: "appended outWS ws' (discovered fs jsonFiles)"
      and l: "list_all (holds_object fs) jsonFiles"
    by simp_all
  from a have t: "tidy ws'" by (simp add: appended_def)
  have "map_of (cells ws') (r, c) = None" if "current_row ws' < r" for r c
    using tidy_map_of [OF t that] .
  with a l show ?thesis
    unfolding appended_def by blast
qed

theorem parseChats_one_row_per_message_witness:
  "tidy header_sheet
   \<and> discovered example_fs (findMessagesJson example_fs example_root) =
       [(example_root @ [ascii ''Chat1'', ascii ''messages.json''], msg_full),
        (example_root @ [ascii ''Chat1'', ascii ''messages.json''], msg_two_versions),
        (example_root @ [ascii ''Chat1'', ascii ''messages.json''], msg_upload_no_ip),
        (example_root @ [ascii ''Chat2'', ascii ''MESSAGES.JSON''], msg_full)]
   \<and> (\<exists>ws'. parseChats example_fs header_sheet (findMessagesJson example_fs example_root)
               example_root = Inr ws'
         \<and> current_row ws' = 5
         \<and> row_values ws' 4 =
             [Some (VStr (ascii ''Chat1'')),
              Some (VDatetime \<lparr>year = 2024, month = 10, day = 25, hour = 3, minute = 20,
                 second = 36\<rparr>),
              Some (VStr []), Some (VStr []), Some (VStr []), Some VNone]
         \<and> row_values ws' 5 =
             [Some (VStr (ascii ''Chat2'')),
              Some (VDatetime \<lparr>year = 2024, month = 10, day = 25, hour = 3, minute = 20,
                 second = 36\<rparr>),
              Some (VStr (ascii ''a@b.c'')), Some (VStr (ascii ''see'')),
              Some (VStr (ascii ''a.png'' @ [10] @ ascii ''b.png'' @ [10] @ ascii ''c.pdf'')),
              Some (VStr (ascii ''10.0.0.7''))])"
proof -
  let ?p1 = "example_root @ [ascii ''Chat1'', ascii ''messages.json'']"
  let ?p2 = "example_root @ [ascii ''Chat2'', ascii ''MESSAGES.JSON'']"
  let ?files = "findMessagesJson example_fs example_root"
  have t: "tidy header_sheet" by (rule tidy_header_sheet)
  have d: "discovered example_fs ?files =
      [(?p1, msg_full), (?p1, msg_two_versions), (?p1, msg_upload_no_ip), (?p2, msg_full)]"
    by (simp add: example_files example_stored)
  have n1: "name (parent ?p1) = ascii ''Chat1''" and n2: "name (parent ?p2) = ascii ''Chat2''"
    by (simp_all add: name_def parent_def example_root_def)
  have "\<exists>ws'. parseChats example_fs header_sheet ?files example_root = Inr ws'"
    unfolding example_files
    apply (rule parseChats_succeeds)
    apply (simp add: example_messages msg_full_fields msg_two_versions_fields
        msg_upload_no_ip_fields n1 n2)
    apply (simp add: cell_eval ascii_def)
    done
  then obtain ws' where p: "parseChats example_fs header_sheet ?files example_root = Inr ws'"
    by blast
  have c: "current_row header_sheet = 1"
    by (simp add: header_sheet_eval)
  from parseChats_one_row_per_message [OF t p]
  have cr: "current_row ws' = current_row header_sheet + length (discovered example_fs ?files)"
    and rows: "\<forall>i<length (discovered example_fs ?files). \<exists>row att xs.
          messageFields (name (parent (fst (discovered example_fs ?files ! i))))
              (snd (discovered example_fs ?files ! i)) = Inr (row, att)
          \<and> bind_values row = Inr xs
          \<and> row_values ws' (current_row header_sheet + 1 + i) = map Some xs"
    by blast+
  from cr have cr5: "current_row ws' = 5"
    by (simp add: d c)
  have "2 < length (discovered example_fs ?files)"
    by (simp add: d)
  with rows obtain row att xs where
      r: "messageFields (name (parent (fst (discovered example_fs ?files ! 2))))
              (snd (discovered example_fs ?files ! 2)) = Inr (row, att)"
      and b: "bind_values row = Inr xs"
      and v: "row_values ws' (current_row header_sheet + 1 + 2) = map Some xs"
    by blast
  from r have "row = [PStr (ascii ''Chat1''),
             PDatetime \<lparr>year = 2024, month = 10, day = 25, hour = 3, minute = 20, second = 36\<rparr>,
             PStr [], PStr [], PStr [], PNone]"
    by (simp add: d n1 msg_upload_no_ip_fields)
  with b have "xs = [VStr (ascii ''Chat1''),
             VDatetime \<lparr>year = 2024, month = 10, day = 25, hour = 3, minute = 20, second = 36\<rparr>,
             VStr [], VStr [], VStr [], VNone]"
    by (auto simp: cell_eval ascii_def)
  moreover have e: "current_row header_sheet + 1 + 2 = 4"
    using c by simp
  from v have "row_values ws' 4 = map Some xs"
    unfolding e .
  ultimately have r4: "row_values ws' 4 =
             [Some (VStr (ascii ''Chat1'')),
              Some (VDatetime \<lparr>year = 2024, month = 10, day = 25, hour = 3, minute = 20,
                 second = 36\<rparr>),
              Some (VStr []), Some (VStr []), Some (VStr []), Some VNone]"
    by simp
  have "3 < length (discovered example_fs ?files)"
    by (simp add: d)
  with rows obtain row' att' xs' where
      r': "messageFields (name (parent (fst (discovered example_fs ?files ! 3))))
              (snd (discovered example_fs ?files ! 3)) = Inr (row', att')"
      and b': "bind_values row' = Inr xs'"
      and v': "row_values ws' (current_row header_sheet + 1 + 3) = map Some xs'"
    by blast
  from r' have "row' = [PStr (ascii ''Chat2''),
             PDatetime \<lparr>year = 2024, month = 10, day = 25, hour = 3, minute = 20, second = 36\<rparr>,
             PStr (ascii ''a@b.c''), PStr (ascii ''see''),
             PStr (ascii ''a.png'' @ [10] @ ascii ''b.png'' @ [10] @ ascii ''c.pdf''),
             PStr (ascii ''10.0.0.7'')]"
    by (simp add: d n2 msg_full_fields)
  with b' have "xs' = [VStr (ascii ''Chat2''),
             VDatetime \<lparr>year = 2024, month = 10, day = 25, hour = 3, minute = 20, second = 36\<rparr>,
             VStr (ascii ''a@b.c''), VStr (ascii ''see''),
             VStr (ascii ''a.png'' @ [10] @ ascii ''b.png'' @ [10] @ ascii ''c.pdf''),
             VStr (ascii ''10.0.0.7'')]"
    by (auto simp: cell_eval ascii_def)
  moreover have e': "current_row header_sheet + 1 + 3 = 5"
    using c by simp
  from v' have "row_values ws' 5 = map Some xs'"
    unfolding e' .
  ultimately have r5: "row_values ws' 5 =
             [Some (VStr (ascii ''Chat2'')),
              Some (VDatetime \<lparr>year = 2024, month = 10, day = 25, hour = 3, minute = 20,
                 second = 36\<rparr>),
              Some (VStr (ascii ''a@b.c'')), Some (VStr (ascii ''see'')),
              Some (VStr (ascii ''a.png'' @ [10] @ ascii ''b.png'' @ [10] @ ascii ''c.pdf'')),
              Some (VStr (ascii ''10.0.0.7''))]"
    by simp
  from t d p cr5 r4 r5 show ?thesis
    by blast
qed

text \<open>
  Claim C7 as it is stated fails on a tree with one export file that holds one message,
  \<open>msg_bad_date\<close>, whose timestamp is in another format: the file is discovered,
  \<open>strptime\<close> raises \<open>ValueError\<close> on the message, \<open>parseChats\<close> ends with no row for it
  and \<open>createWorkbook\<close> never reaches \<open>wb.save\<close>.
\<close>

theorem one_row_per_message_counterexample:
  "findMessagesJson fs_bad_date [ascii ''data''] =
     [[ascii ''data'', ascii ''Chat1'', ascii ''messages.json'']]
   \<and> stored_messages fs_bad_date [ascii ''data'', ascii ''Chat1'', ascii ''messages.json''] =
       [msg_bad_date]
   \<and> parseChats fs_bad_date header_sheet (findMessagesJson fs_bad_date [ascii ''data''])
        [ascii ''data''] = Inl ValueError
   \<and> createWorkbook fs_bad_date [ascii ''data'', ascii ''googleChats.xlsx'']
        (findMessagesJson fs_bad_date [ascii ''data'']) [ascii ''data''] = Inl ValueError"
proof -
  let ?p = "[ascii ''data'', ascii ''Chat1'', ascii ''messages.json'']"
  have f: "findMessagesJson fs_bad_date [ascii ''data''] = [?p]"
    by (simp add: findMessagesJson_def fs_bad_date_def is_file_def name_def lower_ascii_def
        ascii_def)
  have s: "stored_messages fs_bad_date ?p = [msg_bad_date]"
    by (simp add: stored_messages_def fs_bad_date_def ascii_def)
  have m: "fileMessages fs_bad_date ?p = Inr [msg_bad_date]"
    by (simp add: fileMessages_def load_def fs_bad_date_def ascii_def)
  have p: "parseChats fs_bad_date header_sheet [?p] [ascii ''data''] = Inl ValueError"
    by (simp add: m parseMessage_def msg_bad_date_fields)
  then have c: "createWorkbook fs_bad_date [ascii ''data'', ascii ''googleChats.xlsx''] [?p]
      [ascii ''data''] = Inl ValueError"
    by (simp add: createWorkbook_header_sheet)
  from s p c show ?thesis
    unfolding f by simp
qed

section \<open>A run that finds nothing\<close>

text \<open>
  Claim C8. When the argument resolves to a directory below which no file has a name that
  is \<open>messages.json\<close> in lower case, the script prints one line saying so, exits with
  status 0 and saves no workbook.
\<close>

theorem main_nothing_found:
  assumes "length argv = 2"
    and "is_dir fs (resolve (argv ! 1))"
    and "\<forall>q. q \<noteq> [] \<longrightarrow>
           \<not> (is_file fs (resolve (argv ! 1) @ q)
              \<and> lower_ascii (name (resolve (argv ! 1) @ q)) = ascii ''messages.json'')"
  shows "main resolve fs argv =
     \<lparr>stdout = [ascii ''No messages.json files found under '' @ path_str (resolve (argv ! 1))],
      status = 0, saved = None\<rparr>"
proof -
  have "set (findMessagesJson fs (resolve (argv ! 1))) = {}"
    unfolding findMessagesJson_paths using assms(3) by blast
  then have "findMessagesJson fs (resolve (argv ! 1)) = []"
    by simp
  with assms(1,2) show ?thesis
    by (simp add: main_def Let_def)
qed

theorem main_nothing_found_witness:
  "length [ascii ''googleChats.py'', ascii ''/data''] = 2
   \<and> is_dir fs_no_export [ascii ''data'']
   \<and> {p. \<exists>q. q \<noteq> [] \<and> p = [ascii ''data''] @ q \<and> is_file fs_no_export p
            \<and> lower_ascii (name p) = ascii ''messages.json''} = {}
   \<and> main (\<lambda>arg. [ascii ''data'']) fs_no_export [ascii ''googleChats.py'', ascii ''/data''] =
       \<lparr>stdout = [ascii ''No messages.json files found under /data''],
        status = 0, saved = None\<rparr>"
proof -
  let ?argv = "[ascii ''googleChats.py'', ascii ''/data'']"
  let ?resolve = "\<lambda>arg::pystr. [ascii ''data'']"
  have h1: "length ?argv = 2" by simp
  have h2: "is_dir fs_no_export (?resolve (?argv ! 1))"
    by (simp add: is_dir_def fs_no_export_def ascii_def)
  have "findMessagesJson fs_no_export [ascii ''data''] = []"
    by (simp add: findMessagesJson_def fs_no_export_def is_file_def name_def lower_ascii_def
        ascii_def)
  then have e: "{p. \<exists>q. q \<noteq> [] \<and> p = [ascii ''data''] @ q \<and> is_file fs_no_export p
            \<and> lower_ascii (name p) = ascii ''messages.json''} = {}"
    using findMessagesJson_paths [of fs_no_export "[ascii ''data'']"] by simp
  then have h3: "\<forall>q. q \<noteq> [] \<longrightarrow>
           \<not> (is_file fs_no_export (?resolve (?argv ! 1) @ q)
              \<and> lower_ascii (name (?resolve (?argv ! 1) @ q)) = ascii ''messages.json'')"
    by blast
  have p: "path_str [ascii ''data''] = ascii ''/data''"
    by (simp add: path_str_def ascii_def)
  from main_nothing_found [of ?argv fs_no_export ?resolve, OF h1 h2 h3] p
  have "main ?resolve fs_no_export ?argv =
       \<lparr>stdout = [ascii ''No messages.json files found under /data''],
        status = 0, saved = None\<rparr>"
    by (simp add: ascii_def)
  with h1 h2 e show ?thesis
    by simp
qed

section \<open>\<open>cleanup\<close> and the last row\<close>

text \<open>
  Claim C9. \<open>cleanup\<close> sets the wrapping alignment, \<open>Alignment(wrapText=True)\<close>, on the
  cells in columns 4 and 5 (D and E) of the row \<open>max_row\<close>, the last row of the sheet, and
  on no other cell: every other cell of the sheet is after \<open>cleanup\<close> what it was before,
  alignment included, and the two cells of the last row differ from before in their
  alignment only. The docstring of \<open>cleanup\<close> and its comments speak of wrapping where it is
  needed; the code wraps in the last row, whatever the other rows hold.
\<close>

theorem cleanup_wraps_last_row_only:
  "max_row (cleanup outWS) = max_row outWS
   \<and> (\<exists>d e. map_of (cells (cleanup outWS)) (max_row outWS, 4) = Some d
          \<and> alignment d = Some wrapAlign
          \<and> map_of (cells (cleanup outWS)) (max_row outWS, 5) = Some e
          \<and> alignment e = Some wrapAlign)
   \<and> wrapText wrapAlign = Some True
   \<and> horizontal wrapAlign = None \<and> vertical wrapAlign = None
   \<and> (\<forall>r c x. map_of (cells outWS) (r, c) = Some x \<and> (r \<noteq> max_row outWS \<or> (c \<noteq> 4 \<and> c \<noteq> 5))
         \<longrightarrow> map_of (cells (cleanup outWS)) (r, c) = Some x)
   \<and> (\<forall>c x. map_of (cells outWS) (max_row outWS, c) = Some x \<and> (c = 4 \<or> c = 5)
         \<longrightarrow> map_of (cells (cleanup outWS)) (max_row outWS, c)
               = Some (x\<lparr>alignment := Some wrapAlign\<rparr>))"
proof (intro conjI allI impI)
  show "max_row (cleanup outWS) = max_row outWS"
    by (rule cleanup_max_row)
  show "\<exists>d e. map_of (cells (cleanup outWS)) (max_row outWS, 4) = Some d
          \<and> alignment d = Some wrapAlign
          \<and> map_of (cells (cleanup outWS)) (max_row outWS, 5) = Some e
          \<and> alignment e = Some wrapAlign"
    by (simp add: cleanup_cells)
  show "wrapText wrapAlign = Some True"
    by (simp add: wrapAlign_def)
  show "horizontal wrapAlign = None"
    by (simp add: wrapAlign_def)
  show "vertical wrapAlign = None"
    by (simp add: wrapAlign_def)
  show "map_of (cells (cleanup outWS)) (r, c) = Some x"
    if "map_of (cells outWS) (r, c) = Some x \<and> (r \<noteq> max_row outWS \<or> (c \<noteq> 4 \<and> c \<noteq> 5))"
    for r c x
    using that by (auto simp: cleanup_cells)
  show "map_of (cells (cleanup outWS)) (max_row outWS, c) = Some (x\<lparr>alignment := Some wrapAlign\<rparr>)"
    if "map_of (cells outWS) (max_row outWS, c) = Some x \<and> (c = 4 \<or> c = 5)" for c x
    using that by (auto simp: cleanup_cells present_def)
qed

theorem cleanup_wraps_last_row_only_witness:
  "max_row small_sheet = 3
   \<and> map_of (cells small_sheet) (2, 4) =
       Some ((new_cell (VStr (ascii ''one'')))\<lparr>alignment := Some headerAlign\<rparr>)
   \<and> map_of (cells (cleanup small_sheet)) (2, 4) =
       Some ((new_cell (VStr (ascii ''one'')))\<lparr>alignment := Some headerAlign\<rparr>)
   \<and> map_of (cells (cleanup small_sheet)) (2, 5) = Some (new_cell (VStr (ascii ''a.png'')))
   \<and> map_of (cells (cleanup small_sheet)) (3, 4) =
       Some ((new_cell (VStr (ascii ''two'')))\<lparr>alignment := Some wrapAlign\<rparr>)
   \<and> map_of (cells (cleanup small_sheet)) (3, 5) =
       Some ((new_cell (VStr []))\<lparr>alignment := Some wrapAlign\<rparr>)
   \<and> wrapText wrapAlign = Some True"
proof -
  have m: "max_row small_sheet = 3"
    by (simp add: small_sheet_def max_row_def)
  have a: "map_of (cells small_sheet) (2, 4) =
       Some ((new_cell (VStr (ascii ''one'')))\<lparr>alignment := Some headerAlign\<rparr>)"
    "map_of (cells small_sheet) (2, 5) = Some (new_cell (VStr (ascii ''a.png'')))"
    "map_of (cells small_sheet) (3, 4) = Some (new_cell (VStr (ascii ''two'')))"
    "map_of (cells small_sheet) (3, 5) = Some (new_cell (VStr []))"
    by (simp_all add: small_sheet_def)
  from cleanup_wraps_last_row_only [of small_sheet]
  have other: "\<And>r c x. map_of (cells small_sheet) (r, c) = Some x
          \<and> (r \<noteq> max_row small_sheet \<or> (c \<noteq> 4 \<and> c \<noteq> 5))
         \<Longrightarrow> map_of (cells (cleanup small_sheet)) (r, c) = Some x"
    and last: "\<And>c x. map_of (cells small_sheet) (max_row small_sheet, c) = Some x \<and> (c = 4 \<or> c = 5)
         \<Longrightarrow> map_of (cells (cleanup small_sheet)) (max_row small_sheet, c)
               = Some (x\<lparr>alignment := Some wrapAlign\<rparr>)"
    and wrap: "wrapText wrapAlign = Some True"
    by blast+
  have b: "map_of (cells (cleanup small_sheet)) (2, 4) =
       Some ((new_cell (VStr (ascii ''one'')))\<lparr>alignment := Some headerAlign\<rparr>)"
    by (rule other) (simp add: a m)
  have c: "map_of (cells (cleanup small_sheet)) (2, 5) = Some (new_cell (VStr (ascii ''a.png'')))"
    by (rule other) (simp add: a m)
  have d: "map_of (cells (cleanup small_sheet)) (3, 4) =
       Some ((new_cell (VStr (ascii ''two'')))\<lparr>alignment := Some wrapAlign\<rparr>)"
    using last [of 4 "new_cell (VStr (ascii ''two''))"] a m by simp
  have e: "map_of (cells (cleanup small_sheet)) (3, 5) =
       Some ((new_cell (VStr []))\<lparr>alignment := Some wrapAlign\<rparr>)"
    using last [of 5 "new_cell (VStr [])"] a m by simp
  from m a(1) b c d e wrap show ?thesis
    by simp
qed

section \<open>A workbook of the header row alone\<close>

text \<open>
  Claim C10. When files are found and every one of them yields no message, the script exits
  with status 0 and saves a workbook whose sheet has the header row only. The last row is
  then the header row: before \<open>cleanup\<close> all six header cells are centred, in the saved
  sheet the cells D1 and E1 have the alignment that only wraps (no centring), with the bold
  header font still on them, and the other four header cells are as they were.
\<close>

theorem header_only_workbook:
  assumes "length argv = 2"
    and "is_dir fs (resolve (argv ! 1))"
    and "findMessagesJson fs (resolve (argv ! 1)) \<noteq> []"
    and "list_all (\<lambda>p. fileMessages fs p = Inr []) (findMessagesJson fs (resolve (argv ! 1)))"
  shows "status (main resolve fs argv) = 0
    \<and> saved (main resolve fs argv) =
        Some (resolve (argv ! 1) @ [ascii ''googleChats.xlsx''], cleanup header_sheet)
    \<and> max_row header_sheet = 1
    \<and> (\<forall>r c. map_of (cells header_sheet) (r, c) =
          (if r = 1 \<and> 1 \<le> c \<and> c \<le> 6 then Some (header_cell c) else None))
    \<and> (\<forall>r c. map_of (cells (cleanup header_sheet)) (r, c) =
          (if r = 1 \<and> 1 \<le> c \<and> c \<le> 6
           then Some (if c = 4 \<or> c = 5 then (header_cell c)\<lparr>alignment := Some wrapAlign\<rparr>
                      else header_cell c)
           else None))
    \<and> alignment (header_cell 4) = Some headerAlign
    \<and> alignment (header_cell 5) = Some headerAlign
    \<and> horizontal headerAlign = Some ''center'' \<and> vertical headerAlign = Some ''center''
    \<and> wrapAlign = \<lparr>horizontal = None, vertical = None, wrapText = Some True\<rparr>
    \<and> font ((header_cell 4)\<lparr>alignment := Some wrapAlign\<rparr>) = Some headerFont
    \<and> font ((header_cell 5)\<lparr>alignment := Some wrapAlign\<rparr>) = Some headerFont
    \<and> bold headerFont"
proof -
  let ?root = "resolve (argv ! 1)"
  let ?files = "findMessagesJson fs ?root"
  have "parseChats fs header_sheet ?files ?root = Inr header_sheet"
    using assms(4) by (rule parseChats_no_messages)
  then have c: "createWorkbook fs (?root @ [ascii ''googleChats.xlsx'']) ?files ?root =
      Inr (?root @ [ascii ''googleChats.xlsx''], cleanup header_sheet)"
    by (simp add: createWorkbook_header_sheet)
  have s: "status (main resolve fs argv) = 0"
    using assms(1-3) c by (simp add: main_def Let_def)
  have w: "saved (main resolve fs argv) =
        Some (?root @ [ascii ''googleChats.xlsx''], cleanup header_sheet)"
    using assms(1-3) c by (simp add: main_def Let_def)
  have f: "alignment (header_cell 4) = Some headerAlign"
    "alignment (header_cell 5) = Some headerAlign"
    "horizontal headerAlign = Some ''center''" "vertical headerAlign = Some ''center''"
    "wrapAlign = \<lparr>horizontal = None, vertical = None, wrapText = Some True\<rparr>"
    "font ((header_cell 4)\<lparr>alignment := Some wrapAlign\<rparr>) = Some headerFont"
    "font ((header_cell 5)\<lparr>alignment := Some wrapAlign\<rparr>) = Some headerFont"
    "bold headerFont"
    by (simp_all add: header_cell_def headerAlign_def wrapAlign_def headerFont_def)
  from s w header_sheet_max_row header_sheet_cells cleanup_header_sheet_cells f
  show ?thesis
    by (intro conjI allI)
qed

theorem header_only_workbook_witness:
  "length [ascii ''googleChats.py'', ascii ''/data''] = 2
   \<and> is_dir fs_no_messages [ascii ''data'']
   \<and> findMessagesJson fs_no_messages [ascii ''data''] =
       [[ascii ''data'', ascii ''Chat1'', ascii ''messages.json''],
        [ascii ''data'', ascii ''Chat2'', ascii ''messages.json'']]
   \<and> list_all (\<lambda>p. fileMessages fs_no_messages p = Inr [])
        (findMessagesJson fs_no_messages [ascii ''data''])
   \<and> status (main (\<lambda>arg. [ascii ''data'']) fs_no_messages
        [ascii ''googleChats.py'', ascii ''/data'']) = 0
   \<and> saved (main (\<lambda>arg. [ascii ''data'']) fs_no_messages
        [ascii ''googleChats.py'', ascii ''/data'']) =
       Some ([ascii ''data'', ascii ''googleChats.xlsx''], cleanup header_sheet)
   \<and> map_of (cells (cleanup header_sheet)) (1, 4) =
       Some ((header_cell 4)\<lparr>alignment := Some wrapAlign\<rparr>)
   \<and> map_of (cells (cleanup header_sheet)) (2, 4) = None"
proof -
  let ?argv = "[ascii ''googleChats.py'', ascii ''/data'']"
  let ?resolve = "\<lambda>arg::pystr. [ascii ''data'']"
  have h1: "length ?argv = 2" by simp
  have h2: "is_dir fs_no_messages (?resolve (?argv ! 1))"
    by (simp add: is_dir_def fs_no_messages_def ascii_def)
  have f: "findMessagesJson fs_no_messages [ascii ''data''] =
       [[ascii ''data'', ascii ''Chat1'', ascii ''messages.json''],
        [ascii ''data'', ascii ''Chat2'', ascii ''messages.json'']]"
    by (simp add: findMessagesJson_def fs_no_messages_def is_file_def name_def lower_ascii_def
        ascii_def)
  then have h3: "findMessagesJson fs_no_messages (?resolve (?argv ! 1)) \<noteq> []"
    by simp
  have h4: "list_all (\<lambda>p. fileMessages fs_no_messages p = Inr [])
        (findMessagesJson fs_no_messages (?resolve (?argv ! 1)))"
    unfolding f by (simp add: fileMessages_def load_def fs_no_messages_def ascii_def)
  from header_only_workbook [of ?argv fs_no_messages ?resolve, OF h1 h2 h3 h4]
  have "status (main ?resolve fs_no_messages ?argv) = 0"
    and "saved (main ?resolve fs_no_messages ?argv) =
       Some ([ascii ''data'', ascii ''googleChats.xlsx''], cleanup header_sheet)"
    and "\<forall>r c. map_of (cells (cleanup header_sheet)) (r, c) =
          (if r = 1 \<and> 1 \<le> c \<and> c \<le> 6
           then Some (if c = 4 \<or> c = 5 then (header_cell c)\<lparr>alignment := Some wrapAlign\<rparr>
                      else header_cell c)
           else None)"
    by simp_all
  with h1 h2 f h4 show ?thesis
    by simp
qed

end
